theory Spec2Isabelle
  imports Complex_Main "HOL-Library.Word" "HOL-Library.AList" "HOL-Library.Multiset"
begin

section \<open>The prune planner of restic (cmd/restic/cmd\_prune.go)\<close>

text \<open>
  The development embeds \<^verbatim>\<open>verifyPruneOptions\<close>, \<^verbatim>\<open>planPrune\<close> and the part of
  \<^verbatim>\<open>runPruneWithRepo\<close> around it.
  Go's \<^verbatim>\<open>uint64\<close> is a 64-bit word; \<^verbatim>\<open>uint\<close> is taken at its width on the 64-bit
  platforms, so that \<^verbatim>\<open>uint64(blob.Length)\<close> is the identity. The conversions
  \<^verbatim>\<open>uint64(hdrSize)\<close> and \<^verbatim>\<open>uint64(packSize)\<close> from \<^verbatim>\<open>int64\<close> keep the 64 bits, so
  header and file sizes are words as well. All arithmetic on counters wraps around.
\<close>

subsection \<open>Data\<close>

type_synonym uint = "64 word"
type_synonym uint64 = "64 word"

text \<open>Modelled from the spec: \<^verbatim>\<open>restic.ID\<close>, declared in package restic, is a cryptographic
  digest. Only its equality is used; a natural number stands for it.\<close>

type_synonym ID = nat

text \<open>Modelled from the spec: \<^verbatim>\<open>restic.BlobType\<close>, declared in package restic. The type
  tags Data, Tree, Mixed and Unset of the spec are the constants \<^verbatim>\<open>DataBlob\<close>,
  \<^verbatim>\<open>TreeBlob\<close>, \<^verbatim>\<open>InvalidBlob\<close> and \<^verbatim>\<open>NumBlobTypes\<close> that the code names.\<close>

datatype BlobType = InvalidBlob | DataBlob | TreeBlob | NumBlobTypes

text \<open>Modelled from the spec: \<^verbatim>\<open>restic.BlobHandle\<close>, the pair of an identifier and a type,
  equal when both are.\<close>

type_synonym BlobHandle = "ID \<times> BlobType"

text \<open>Modelled from the spec: \<^verbatim>\<open>restic.PackedBlob\<close>, an indexed blob, with the fields that
  \<^verbatim>\<open>planPrune\<close> reads: the handle, the length in bytes and the pack. \<^verbatim>\<open>blob.Type\<close> is the
  type of the handle.\<close>

record PackedBlob =
  BlobHandle :: BlobHandle
  Length :: uint
  PackID :: ID

definition Type :: "PackedBlob \<Rightarrow> BlobType" where
  "Type blob = snd (BlobHandle blob)"

datatype error = errorIndexIncomplete | errorPacksMissing | errorSizeNotMatching

record PruneOptions =
  DryRun :: bool
  MaxUnused :: string
  maxUnusedBytes :: "uint64 \<Rightarrow> uint64"
  MaxRepackSize :: string
  MaxRepackBytes :: uint64
  RepackCachableOnly :: bool

record blobStats =
  Used :: uint
  Duplicate :: uint
  Unused :: uint
  Total :: uint
  Repack :: uint
  RepackRm :: uint
  Remove :: uint
  RemoveTotal :: uint
  Remain :: uint
  RemainUnused :: uint

record sizeStats =
  Used :: uint64
  Duplicate :: uint64
  Unused :: uint64
  Unref :: uint64
  Total :: uint64
  Repack :: uint64
  RepackRm :: uint64
  Remove :: uint64
  RemoveTotal :: uint64
  Remain :: uint64
  RemainUnused :: uint64

record packStats =
  Used :: uint
  Unused :: uint
  PartlyUsed :: uint
  Unref :: uint
  Total :: uint
  Keep :: uint
  Repack :: uint
  Remove :: uint
  RemoveTotal :: uint

record pruneStats =
  MessageType :: string
  Blobs :: blobStats
  Size :: sizeStats
  Packs :: packStats

record prunePlan =
  removePacksFirst :: "ID set"
  repackPacks :: "ID set"
  keepBlobs :: "BlobHandle set"
  removePacks :: "ID set"
  ignorePacks :: "ID set"

record packInfo =
  usedBlobs :: uint
  unusedBlobs :: uint
  duplicateBlobs :: uint
  usedSize :: uint64
  unusedSize :: uint64
  tpe :: BlobType

record packInfoWithID =
  ID :: ID
  packInfo :: packInfo

text \<open>Modelled from the spec: \<^verbatim>\<open>restic.Repository\<close>, as far as \<^verbatim>\<open>planPrune\<close> reads it: the
  enumeration \<^verbatim>\<open>repo.Index().Each(ctx)\<close> of the indexed blobs, the same for both passes; the
  map \<^verbatim>\<open>repo.Index().PackSize(ctx, true)\<close> from packs to header bytes, as the list of its
  entries; and the files that \<^verbatim>\<open>repo.List(ctx, restic.PackFile, fn)\<close> passes to its callback,
  with their sizes, in the order of the calls. A failure of the backend while listing is
  outside the model.\<close>

record Repository =
  Each :: "PackedBlob list"
  PackSize :: "(ID \<times> uint64) list"
  List :: "(ID \<times> uint64) list"

text \<open>Two things are decided by the Go runtime and library, not by the repository's code:
  what \<^verbatim>\<open>sort.Slice\<close> does with a slice and a comparator, and the order in which
  \<^verbatim>\<open>range\<close> visits the entries of the map \<^verbatim>\<open>indexPack\<close>. Both are parameters.\<close>

record GoRuntime =
  sort_Slice :: "(packInfoWithID \<Rightarrow> packInfoWithID \<Rightarrow> bool) \<Rightarrow> packInfoWithID list \<Rightarrow> packInfoWithID list"
  range_indexPack :: "(ID \<times> packInfo) list \<Rightarrow> (ID \<times> packInfo) list"

text \<open>The local variables of \<^verbatim>\<open>planPrune\<close>. The map \<^verbatim>\<open>indexPack\<close> is an association
  list; \<^verbatim>\<open>stats\<close> is the named result.\<close>

record vars =
  usedBlobs :: "BlobHandle set"
  keepBlobs :: "BlobHandle set"
  duplicateBlobs :: "BlobHandle set"
  indexPack :: "(ID \<times> packInfo) list"
  removePacksFirst :: "ID set"
  removePacks :: "ID set"
  repackPacks :: "ID set"
  ignorePacks :: "ID set"
  repackCandidates :: "packInfoWithID list"
  repackAllPacksWithDuplicates :: bool
  stats :: pruneStats

subsection \<open>The options (lines 69 to 121)\<close>

text \<open>Go's \<^verbatim>\<open>float64\<close>, as far as \<^verbatim>\<open>verifyPruneOptions\<close> looks into it: a finite value is the
  real number it stands for, and there are the two infinities and NaN. The comparisons are
  those of the language: exact, and false whenever an operand is NaN.\<close>

datatype float64 = Finite real | PosInf | NegInf | NaN

fun float64_less :: "float64 \<Rightarrow> float64 \<Rightarrow> bool" where
  "float64_less (Finite a) (Finite b) \<longleftrightarrow> a < b"
| "float64_less (Finite a) PosInf \<longleftrightarrow> True"
| "float64_less (Finite a) NegInf \<longleftrightarrow> False"
| "float64_less PosInf y \<longleftrightarrow> False"
| "float64_less NegInf (Finite b) \<longleftrightarrow> True"
| "float64_less NegInf PosInf \<longleftrightarrow> True"
| "float64_less NegInf NegInf \<longleftrightarrow> False"
| "float64_less x NaN \<longleftrightarrow> False"
| "float64_less NaN y \<longleftrightarrow> False"

fun float64_ge :: "float64 \<Rightarrow> float64 \<Rightarrow> bool" where
  "float64_ge NaN y \<longleftrightarrow> False"
| "float64_ge x NaN \<longleftrightarrow> False"
| "float64_ge x y \<longleftrightarrow> \<not> float64_less x y"

text \<open>What \<^verbatim>\<open>verifyPruneOptions\<close> calls and this file does not hold: \<^verbatim>\<open>strings.TrimSpace\<close>
  and \<^verbatim>\<open>strconv.ParseFloat\<close> (with bit size 64) of the Go library, \<^verbatim>\<open>parseSizeStr\<close> of this
  repository, and the arithmetic and the conversions of \<^verbatim>\<open>float64\<close>, which round. A parser
  gives no value when it returns an error. The size that \<^verbatim>\<open>parseSizeStr\<close> returns is an
  \<^verbatim>\<open>int64\<close>, taken with the 64 bits that \<^verbatim>\<open>uint64(size)\<close> keeps.\<close>

record Library =
  TrimSpace :: "string \<Rightarrow> string"
  ParseFloat :: "string \<Rightarrow> float64 option"
  parseSizeStr :: "string \<Rightarrow> uint64 option"
  float64_sub :: "float64 \<Rightarrow> float64 \<Rightarrow> float64"
  float64_div :: "float64 \<Rightarrow> float64 \<Rightarrow> float64"
  float64_mul :: "float64 \<Rightarrow> float64 \<Rightarrow> float64"
  float64_of_uint64 :: "uint64 \<Rightarrow> float64"
  uint64_of_float64 :: "float64 \<Rightarrow> uint64"

text \<open>\<^verbatim>\<open>strings.HasSuffix\<close> and \<^verbatim>\<open>strings.TrimSuffix\<close>, on the bytes of the strings.\<close>

definition HasSuffix :: "string \<Rightarrow> string \<Rightarrow> bool" where
  "HasSuffix s suffix \<longleftrightarrow>
     length s \<ge> length suffix \<and> drop (length s - length suffix) s = suffix"

definition TrimSuffix :: "string \<Rightarrow> string \<Rightarrow> string" where
  "TrimSuffix s suffix = (if HasSuffix s suffix then take (length s - length suffix) s else s)"

definition MaxUint64 :: uint64 where
  "MaxUint64 = 18446744073709551615"

text \<open>The errors of \<^verbatim>\<open>verifyPruneOptions\<close>, which the code builds where it returns them: the
  error of \<^verbatim>\<open>parseSizeStr\<close> on \<^verbatim>\<open>MaxRepackSize\<close>, and the fatal errors "invalid value for
  --max-unused", "invalid percentage", "percentage for --max-unused must be positive",
  "percentage for --max-unused must be below 100%" and "invalid number of bytes".\<close>

datatype optionsError =
    errorMaxRepackSize
  | errorInvalidValue
  | errorInvalidPercentage
  | errorMustBePositive
  | errorMustBeBelow100
  | errorInvalidNumberOfBytes

text \<open>Lines 70 to 76.\<close>

definition verifyMaxRepackSize :: "Library \<Rightarrow> PruneOptions \<Rightarrow> optionsError + PruneOptions" where
  "verifyMaxRepackSize lib opts =
     (if length (MaxRepackSize opts) > 0 then
        (case parseSizeStr lib (MaxRepackSize opts) of
           None \<Rightarrow> Inl errorMaxRepackSize
         | Some sz \<Rightarrow> Inr (opts\<lparr>MaxRepackBytes := sz\<rparr>))
      else Inr opts)"

text \<open>Lines 78 to 120. The function that the percentage branch stores computes
  \<^verbatim>\<open>uint64(p / (100 - p) * float64(used))\<close>.\<close>

definition verifyMaxUnused :: "Library \<Rightarrow> PruneOptions \<Rightarrow> optionsError + PruneOptions" where
  "verifyMaxUnused lib opts =
     (let maxUnused = TrimSpace lib (MaxUnused opts) in
      if maxUnused = [] then Inl errorInvalidValue
      else if maxUnused = ''unlimited'' then
        Inr (opts\<lparr>maxUnusedBytes := (\<lambda>used. MaxUint64)\<rparr>)
      else if HasSuffix maxUnused ''%'' then
        (case ParseFloat lib (TrimSuffix maxUnused ''%'') of
           None \<Rightarrow> Inl errorInvalidPercentage
         | Some p \<Rightarrow>
             if float64_less p (Finite 0) then Inl errorMustBePositive
             else if float64_ge p (Finite 100) then Inl errorMustBeBelow100
             else Inr (opts\<lparr>maxUnusedBytes :=
               (\<lambda>used. uint64_of_float64 lib
                  (float64_mul lib (float64_div lib p (float64_sub lib (Finite 100) p))
                     (float64_of_uint64 lib used)))\<rparr>))
      else
        (case parseSizeStr lib maxUnused of
           None \<Rightarrow> Inl errorInvalidNumberOfBytes
         | Some sz \<Rightarrow> Inr (opts\<lparr>maxUnusedBytes := (\<lambda>used. sz)\<rparr>)))"

definition verifyPruneOptions :: "Library \<Rightarrow> PruneOptions \<Rightarrow> optionsError + PruneOptions" where
  "verifyPruneOptions lib opts =
     (case verifyMaxRepackSize lib opts of
        Inl err \<Rightarrow> Inl err
      | Inr opts1 \<Rightarrow> verifyMaxUnused lib opts1)"

subsection \<open>Zero values\<close>

definition zero_blobStats :: blobStats where
  "zero_blobStats = \<lparr>blobStats.Used = 0, blobStats.Duplicate = 0, blobStats.Unused = 0,
     blobStats.Total = 0, blobStats.Repack = 0, blobStats.RepackRm = 0, blobStats.Remove = 0,
     blobStats.RemoveTotal = 0, blobStats.Remain = 0, blobStats.RemainUnused = 0\<rparr>"

definition zero_sizeStats :: sizeStats where
  "zero_sizeStats = \<lparr>sizeStats.Used = 0, sizeStats.Duplicate = 0, sizeStats.Unused = 0,
     sizeStats.Unref = 0, sizeStats.Total = 0, sizeStats.Repack = 0, sizeStats.RepackRm = 0,
     sizeStats.Remove = 0, sizeStats.RemoveTotal = 0, sizeStats.Remain = 0,
     sizeStats.RemainUnused = 0\<rparr>"

definition zero_packStats :: packStats where
  "zero_packStats = \<lparr>packStats.Used = 0, packStats.Unused = 0, packStats.PartlyUsed = 0,
     packStats.Unref = 0, packStats.Total = 0, packStats.Keep = 0, packStats.Repack = 0,
     packStats.Remove = 0, packStats.RemoveTotal = 0\<rparr>"

definition zero_pruneStats :: pruneStats where
  "zero_pruneStats = \<lparr>MessageType = [], Blobs = zero_blobStats, Size = zero_sizeStats,
     Packs = zero_packStats\<rparr>"

definition zero_prunePlan :: prunePlan where
  "zero_prunePlan = \<lparr>prunePlan.removePacksFirst = {}, prunePlan.repackPacks = {},
     prunePlan.keepBlobs = {}, prunePlan.removePacks = {}, prunePlan.ignorePacks = {}\<rparr>"

definition zero_packInfo :: packInfo where
  "zero_packInfo = \<lparr>packInfo.usedBlobs = 0, unusedBlobs = 0, packInfo.duplicateBlobs = 0,
     usedSize = 0, unusedSize = 0, tpe = InvalidBlob\<rparr>"

text \<open>The variables on entry: the argument \<^verbatim>\<open>usedBlobs\<close>, empty sets, \<^verbatim>\<open>stats\<close> zero.\<close>

definition init_vars :: "BlobHandle set \<Rightarrow> vars" where
  "init_vars used = \<lparr>vars.usedBlobs = used, vars.keepBlobs = {}, vars.duplicateBlobs = {},
     indexPack = [], vars.removePacksFirst = {}, vars.removePacks = {}, vars.repackPacks = {},
     vars.ignorePacks = {}, repackCandidates = [], repackAllPacksWithDuplicates = True,
     stats = zero_pruneStats\<rparr>"

subsection \<open>Pass 1: which blobs are used, duplicate, unused (lines 267 to 284)\<close>

definition classifyBlob :: "PackedBlob \<Rightarrow> vars \<Rightarrow> vars" where
  "classifyBlob blob st =
     (let bh = BlobHandle blob; size = Length blob in
      if bh \<in> vars.usedBlobs st then
        st\<lparr>vars.usedBlobs := vars.usedBlobs st - {bh},
           vars.keepBlobs := insert bh (vars.keepBlobs st),
           stats := (Size_update (sizeStats.Used_update (\<lambda>n. n + size))
                    (Blobs_update (blobStats.Used_update (\<lambda>n. n + 1)) (stats st)))\<rparr>
      else if bh \<in> vars.keepBlobs st then
        st\<lparr>vars.duplicateBlobs := insert bh (vars.duplicateBlobs st),
           stats := (Size_update (sizeStats.Duplicate_update (\<lambda>n. n + size))
                    (Blobs_update (blobStats.Duplicate_update (\<lambda>n. n + 1)) (stats st)))\<rparr>
      else
        st\<lparr>stats := (Size_update (sizeStats.Unused_update (\<lambda>n. n + size))
                    (Blobs_update (blobStats.Unused_update (\<lambda>n. n + 1)) (stats st)))\<rparr>)"

subsection \<open>Pass 2: the information per pack (lines 296 to 333)\<close>

text \<open>Line 301: one entry per pack of \<^verbatim>\<open>PackSize\<close>, its type not set, its header counted
  as used.\<close>

definition seedPack :: "ID \<times> uint64 \<Rightarrow> (ID \<times> packInfo) list \<Rightarrow> (ID \<times> packInfo) list" where
  "seedPack e m = AList.update (fst e) (zero_packInfo\<lparr>tpe := NumBlobTypes, usedSize := snd e\<rparr>) m"

text \<open>Reading \<^verbatim>\<open>indexPack[blob.PackID]\<close> of a pack without an entry gives the zero value of
  \<^verbatim>\<open>packInfo\<close>; that of its type tag is taken to be \<^verbatim>\<open>InvalidBlob\<close>.\<close>

definition lookupPack :: "(ID \<times> packInfo) list \<Rightarrow> ID \<Rightarrow> packInfo" where
  "lookupPack m pid = (case map_of m pid of Some ip \<Rightarrow> ip | None \<Rightarrow> zero_packInfo)"

definition countBlob :: "BlobHandle set \<Rightarrow> BlobHandle set \<Rightarrow> PackedBlob \<Rightarrow> packInfo \<Rightarrow> packInfo" where
  "countBlob keep dups blob ip0 =
     (let ip1 = (if tpe ip0 = NumBlobTypes then ip0\<lparr>tpe := Type blob\<rparr> else ip0);
          ip = (if tpe ip1 \<noteq> Type blob then ip1\<lparr>tpe := InvalidBlob\<rparr> else ip1);
          bh = BlobHandle blob; size = Length blob in
      if bh \<in> dups then
        ip\<lparr>usedSize := usedSize ip + size,
           packInfo.duplicateBlobs := packInfo.duplicateBlobs ip + 1\<rparr>
      else if bh \<in> keep then
        ip\<lparr>usedSize := usedSize ip + size, packInfo.usedBlobs := packInfo.usedBlobs ip + 1\<rparr>
      else
        ip\<lparr>unusedSize := unusedSize ip + size, unusedBlobs := unusedBlobs ip + 1\<rparr>)"

definition generatePackInfo :: "PackedBlob \<Rightarrow> vars \<Rightarrow> vars" where
  "generatePackInfo blob st =
     st\<lparr>indexPack := AList.update (PackID blob)
          (countBlob (vars.keepBlobs st) (vars.duplicateBlobs st) blob
             (lookupPack (indexPack st) (PackID blob)))
          (indexPack st)\<rparr>"

subsection \<open>The decision per pack on disk (lines 343 to 406)\<close>

definition keep :: "packInfo \<Rightarrow> vars \<Rightarrow> vars" where
  "keep p st =
     (let st1 = st\<lparr>stats := Packs_update (packStats.Keep_update (\<lambda>n. n + 1)) (stats st)\<rparr> in
      if packInfo.duplicateBlobs p > 0 then st1\<lparr>repackAllPacksWithDuplicates := False\<rparr>
      else st1)"

definition countPack :: "packInfo \<Rightarrow> vars \<Rightarrow> vars" where
  "countPack p st =
     (if packInfo.usedBlobs p = 0 \<and> packInfo.duplicateBlobs p = 0 then
        st\<lparr>stats := Packs_update (packStats.Unused_update (\<lambda>n. n + 1)) (stats st)\<rparr>
      else if unusedBlobs p = 0 then
        st\<lparr>stats := Packs_update (packStats.Used_update (\<lambda>n. n + 1)) (stats st)\<rparr>
      else
        st\<lparr>stats := Packs_update (packStats.PartlyUsed_update (\<lambda>n. n + 1)) (stats st)\<rparr>)"

definition decidePack :: "PruneOptions \<Rightarrow> ID \<Rightarrow> packInfo \<Rightarrow> vars \<Rightarrow> vars" where
  "decidePack opts pid p st =
     (if packInfo.usedBlobs p = 0 \<and> packInfo.duplicateBlobs p = 0 then
        st\<lparr>vars.removePacks := insert pid (vars.removePacks st),
           stats := (Size_update (sizeStats.Remove_update (\<lambda>n. n + unusedSize p))
                    (Blobs_update (blobStats.Remove_update (\<lambda>n. n + unusedBlobs p)) (stats st)))\<rparr>
      else if RepackCachableOnly opts \<and> tpe p = DataBlob then keep p st
      else if unusedBlobs p = 0 \<and> packInfo.duplicateBlobs p = 0 \<and> tpe p \<noteq> InvalidBlob then
        keep p st
      else
        st\<lparr>repackCandidates := repackCandidates st @ [\<lparr>ID = pid, packInfo = p\<rparr>]\<rparr>)"

text \<open>The callback given to \<^verbatim>\<open>repo.List\<close>: the variables after the call, and its error.\<close>

definition listCallback :: "PruneOptions \<Rightarrow> ID \<times> uint64 \<Rightarrow> vars \<Rightarrow> vars \<times> error option" where
  "listCallback opts f st =
     (let pid = fst f; packSize = snd f in
      case map_of (indexPack st) pid of
        None \<Rightarrow>
          (st\<lparr>vars.removePacksFirst := insert pid (vars.removePacksFirst st),
              stats := Size_update (sizeStats.Unref_update (\<lambda>n. n + packSize)) (stats st)\<rparr>, None)
      | Some p \<Rightarrow>
          if unusedSize p + usedSize p \<noteq> packSize \<and>
             \<not> (packInfo.usedBlobs p = 0 \<and> packInfo.duplicateBlobs p = 0)
          then (st, Some errorSizeNotMatching)
          else
            (let st1 = countPack p st; st2 = decidePack opts pid p st1 in
             (st2\<lparr>indexPack := AList.delete pid (indexPack st2)\<rparr>, None)))"

text \<open>\<^verbatim>\<open>repo.List\<close> calls the function for each file and stops at the first error.\<close>

fun repo_List :: "('f \<Rightarrow> 's \<Rightarrow> 's \<times> error option) \<Rightarrow> 'f list \<Rightarrow> 's \<Rightarrow> 's \<times> error option" where
  "repo_List fn [] st = (st, None)"
| "repo_List fn (f # fs) st =
     (case fn f st of
        (st1, Some e) \<Rightarrow> (st1, Some e)
      | (st1, None) \<Rightarrow> repo_List fn fs st1)"

subsection \<open>Packs of the index that are missing on disk (lines 415 to 423)\<close>

definition ignoreMissing :: "ID \<times> packInfo \<Rightarrow> vars \<Rightarrow> vars" where
  "ignoreMissing e st =
     (let pid = fst e; p = snd e in
      if packInfo.usedBlobs p = 0 \<and> packInfo.duplicateBlobs p = 0 then
        st\<lparr>vars.ignorePacks := insert pid (vars.ignorePacks st),
           stats := (Size_update (sizeStats.Remove_update (\<lambda>n. n + unusedSize p))
                    (Blobs_update (blobStats.Remove_update (\<lambda>n. n + unusedBlobs p)) (stats st))),
           indexPack := AList.delete pid (indexPack st)\<rparr>
      else st)"

subsection \<open>Sorting and selecting the candidates (lines 447 to 494)\<close>

text \<open>The comparator given to \<^verbatim>\<open>sort.Slice\<close>, on the two elements it reads.\<close>

definition candidateLess :: "packInfoWithID \<Rightarrow> packInfoWithID \<Rightarrow> bool" where
  "candidateLess ci cj =
     (let pi = packInfo ci; pj = packInfo cj in
      if packInfo.duplicateBlobs pi > 0 \<and> packInfo.duplicateBlobs pj = 0 then True
      else if packInfo.duplicateBlobs pj > 0 \<and> packInfo.duplicateBlobs pi = 0 then False
      else if tpe pi \<noteq> DataBlob \<and> tpe pj = DataBlob then True
      else if tpe pj \<noteq> DataBlob \<and> tpe pi = DataBlob then False
      else unusedSize pi * usedSize pj > unusedSize pj * usedSize pi)"

definition repack :: "ID \<Rightarrow> packInfo \<Rightarrow> vars \<Rightarrow> vars" where
  "repack pid p st =
     st\<lparr>vars.repackPacks := insert pid (vars.repackPacks st),
        stats :=
          (Size_update (sizeStats.RepackRm_update (\<lambda>n. n + unusedSize p))
          (Blobs_update (blobStats.RepackRm_update (\<lambda>n. n + unusedBlobs p))
          (Size_update (sizeStats.Repack_update (\<lambda>n. n + (unusedSize p + usedSize p)))
          (Blobs_update (blobStats.Repack_update
             (\<lambda>n. n + (unusedBlobs p + packInfo.duplicateBlobs p + packInfo.usedBlobs p)))
          (stats st)))))\<rparr>"

definition reachedUnusedSizeAfter :: "uint64 \<Rightarrow> vars \<Rightarrow> bool" where
  "reachedUnusedSizeAfter maxUnusedSizeAfter st \<longleftrightarrow>
     sizeStats.Unused (Size (stats st)) - sizeStats.Remove (Size (stats st))
       - sizeStats.RepackRm (Size (stats st)) < maxUnusedSizeAfter"

definition reachedRepackSize :: "PruneOptions \<Rightarrow> packInfoWithID \<Rightarrow> vars \<Rightarrow> bool" where
  "reachedRepackSize opts p st \<longleftrightarrow>
     (if MaxRepackBytes opts > 0 then
        sizeStats.Repack (Size (stats st)) + unusedSize (packInfo p) + usedSize (packInfo p)
          > MaxRepackBytes opts
      else False)"

definition selectCandidate :: "PruneOptions \<Rightarrow> uint64 \<Rightarrow> packInfoWithID \<Rightarrow> vars \<Rightarrow> vars" where
  "selectCandidate opts maxUnusedSizeAfter p st =
     (if reachedRepackSize opts p st then keep (packInfo p) st
      else if packInfo.duplicateBlobs (packInfo p) > 0 \<or> tpe (packInfo p) \<noteq> DataBlob then
        repack (ID p) (packInfo p) st
      else if reachedUnusedSizeAfter maxUnusedSizeAfter st then keep (packInfo p) st
      else repack (ID p) (packInfo p) st)"

subsection \<open>The totals (lines 497 to 516)\<close>

definition creditDuplicates :: "vars \<Rightarrow> vars" where
  "creditDuplicates st =
     (if repackAllPacksWithDuplicates st then
        st\<lparr>stats :=
          (let s = stats st in
           Size_update (sizeStats.RepackRm_update (\<lambda>n. n + sizeStats.Duplicate (Size s)))
          (Blobs_update (blobStats.RepackRm_update (\<lambda>n. n + blobStats.Duplicate (Blobs s))) s))\<rparr>
      else st)"

definition blobTotals :: "blobStats \<Rightarrow> blobStats" where
  "blobTotals b0 =
     (let b1 = b0\<lparr>blobStats.Total := blobStats.Used b0 + blobStats.Unused b0 + blobStats.Duplicate b0\<rparr>;
          b2 = b1\<lparr>blobStats.RemoveTotal := blobStats.Remove b1 + blobStats.RepackRm b1\<rparr>
      in b2\<lparr>blobStats.Remain := blobStats.Total b2 - blobStats.RemoveTotal b2\<rparr>)"

definition sizeTotals :: "sizeStats \<Rightarrow> sizeStats" where
  "sizeTotals s0 =
     (let s1 = s0\<lparr>sizeStats.Total := sizeStats.Used s0 + sizeStats.Duplicate s0
                     + sizeStats.Unused s0 + sizeStats.Unref s0\<rparr>;
          s2 = s1\<lparr>sizeStats.Unused := sizeStats.Duplicate s1 + sizeStats.Unused s1\<rparr>;
          s3 = s2\<lparr>sizeStats.RemoveTotal := sizeStats.Remove s2 + sizeStats.RepackRm s2
                     + sizeStats.Unref s2\<rparr>;
          s4 = s3\<lparr>sizeStats.Remain := sizeStats.Total s3 - sizeStats.RemoveTotal s3\<rparr>
      in s4\<lparr>sizeStats.RemainUnused := sizeStats.Unused s4 - sizeStats.Remove s4
                     - sizeStats.RepackRm s4\<rparr>)"

definition packTotals :: "vars \<Rightarrow> packStats \<Rightarrow> packStats" where
  "packTotals st p0 =
     (let p1 = p0\<lparr>packStats.Unref := of_nat (card (vars.removePacksFirst st))\<rparr>;
          p2 = p1\<lparr>packStats.Total := packStats.Used p1 + packStats.PartlyUsed p1
                     + packStats.Unused p1 + packStats.Unref p1\<rparr>;
          p3 = p2\<lparr>packStats.Repack := of_nat (card (vars.repackPacks st))\<rparr>;
          p4 = p3\<lparr>packStats.Remove := of_nat (card (vars.removePacks st))\<rparr>
      in p4\<lparr>packStats.RemoveTotal := packStats.Unref p4 + packStats.Remove p4\<rparr>)"

definition totals :: "vars \<Rightarrow> vars" where
  "totals st =
     st\<lparr>stats := (stats st)\<lparr>MessageType := ''summary'',
                              Blobs := blobTotals (Blobs (stats st)),
                              Size := sizeTotals (Size (stats st)),
                              Packs := packTotals st (Packs (stats st))\<rparr>\<rparr>"

definition planOf :: "vars \<Rightarrow> prunePlan" where
  "planOf st = \<lparr>prunePlan.removePacksFirst = vars.removePacksFirst st,
     prunePlan.repackPacks = vars.repackPacks st,
     prunePlan.keepBlobs = vars.keepBlobs st,
     prunePlan.removePacks = vars.removePacks st,
     prunePlan.ignorePacks = vars.ignorePacks st\<rparr>"

subsection \<open>planPrune\<close>

text \<open>The phases of \<^verbatim>\<open>planPrune\<close>, each from the variables the one before left.\<close>

definition afterPass1 :: "Repository \<Rightarrow> BlobHandle set \<Rightarrow> vars" where
  "afterPass1 repo used = fold classifyBlob (Each repo) (init_vars used)"

definition afterPass2 :: "Repository \<Rightarrow> BlobHandle set \<Rightarrow> vars" where
  "afterPass2 repo used =
     fold generatePackInfo (Each repo)
       ((afterPass1 repo used)\<lparr>indexPack := fold seedPack (PackSize repo) []\<rparr>)"

definition afterList :: "PruneOptions \<Rightarrow> Repository \<Rightarrow> BlobHandle set \<Rightarrow> vars \<times> error option" where
  "afterList opts repo used = repo_List (listCallback opts) (List repo) (afterPass2 repo used)"

definition afterMissing :: "GoRuntime \<Rightarrow> vars \<Rightarrow> vars" where
  "afterMissing rt st = fold ignoreMissing (range_indexPack rt (indexPack st)) st"

definition afterSelect :: "GoRuntime \<Rightarrow> PruneOptions \<Rightarrow> vars \<Rightarrow> vars" where
  "afterSelect rt opts st =
     (let maxUnusedSizeAfter = maxUnusedBytes opts (sizeStats.Used (Size (stats st)));
          sorted = sort_Slice rt candidateLess (repackCandidates st)
      in fold (selectCandidate opts maxUnusedSizeAfter) sorted (st\<lparr>repackCandidates := sorted\<rparr>))"

definition planPrune ::
  "GoRuntime \<Rightarrow> PruneOptions \<Rightarrow> Repository \<Rightarrow> BlobHandle set
     \<Rightarrow> prunePlan \<times> pruneStats \<times> error option" where
  "planPrune rt opts repo used =
     (let st1 = afterPass1 repo used in
      if vars.usedBlobs st1 \<noteq> {} then (zero_prunePlan, stats st1, Some errorIndexIncomplete)
      else
        case afterList opts repo used of
          (st3, Some e) \<Rightarrow> (zero_prunePlan, stats st3, Some e)
        | (st3, None) \<Rightarrow>
            (let st4 = afterMissing rt st3 in
             if indexPack st4 \<noteq> [] then (zero_prunePlan, stats st4, Some errorPacksMissing)
             else
               (let st5 = totals (creditDuplicates (afterSelect rt opts st4))
                in (planOf st5, stats st5, None))))"

subsection \<open>runPruneWithRepo, from the call of planPrune on (lines 174 to 184)\<close>

text \<open>\<^verbatim>\<open>printPruneStats\<close> and \<^verbatim>\<open>doPrune\<close> are parameters: the first may fail, the second
  is the only one to change the backend, whose state is of any type.\<close>

definition runPruneWithRepo ::
  "GoRuntime \<Rightarrow> (pruneStats \<Rightarrow> 'e option) \<Rightarrow> (PruneOptions \<Rightarrow> prunePlan \<Rightarrow> 'b \<Rightarrow> 'b \<times> 'e option)
     \<Rightarrow> (error \<Rightarrow> 'e) \<Rightarrow> PruneOptions \<Rightarrow> Repository \<Rightarrow> BlobHandle set \<Rightarrow> 'b \<Rightarrow> 'b \<times> 'e option" where
  "runPruneWithRepo rt printPruneStats doPrune fatal opts repo used backend =
     (case planPrune rt opts repo used of
        (plan, sts, Some e) \<Rightarrow> (backend, Some (fatal e))
      | (plan, sts, None) \<Rightarrow>
          (case printPruneStats sts of
             Some e \<Rightarrow> (backend, Some e)
           | None \<Rightarrow> doPrune opts plan backend))"

subsection \<open>An instance of the runtime\<close>

text \<open>The insertion sort that Go's \<^verbatim>\<open>sort.Slice\<close> runs on a slice of at most 12 elements:
  each element moves left while it is less than the one before it.\<close>

fun insertLeft :: "('a \<Rightarrow> 'a \<Rightarrow> bool) \<Rightarrow> 'a \<Rightarrow> 'a list \<Rightarrow> 'a list" where
  "insertLeft lt x [] = [x]"
| "insertLeft lt x (y # ys) = (if lt x y then y # insertLeft lt x ys else x # y # ys)"

definition insertionSort :: "('a \<Rightarrow> 'a \<Rightarrow> bool) \<Rightarrow> 'a list \<Rightarrow> 'a list" where
  "insertionSort lt xs = rev (fold (insertLeft lt) xs [])"

definition smallRuntime :: GoRuntime where
  "smallRuntime = \<lparr>sort_Slice = insertionSort, range_indexPack = (\<lambda>m. m)\<rparr>"

subsection \<open>Notions for the statements\<close>

text \<open>A pack without used and without duplicate blobs, by its counters.\<close>

definition noLiveBlobs :: "packInfo \<Rightarrow> bool" where
  "noLiveBlobs p \<longleftrightarrow> packInfo.usedBlobs p = 0 \<and> packInfo.duplicateBlobs p = 0"

text \<open>The blobs of a pack that the second pass counts as used or duplicate.\<close>

definition liveIn :: "BlobHandle set \<Rightarrow> ID \<Rightarrow> PackedBlob list \<Rightarrow> PackedBlob list" where
  "liveIn ks pid bs = filter (\<lambda>b. PackID b = pid \<and> BlobHandle b \<in> ks) bs"

text \<open>The counters of used and of duplicate blobs of a pack, added.\<close>

definition liveCount :: "packInfo \<Rightarrow> uint" where
  "liveCount p = packInfo.usedBlobs p + packInfo.duplicateBlobs p"

text \<open>The size check of a listed file against the entry of its pack.\<close>

definition sizeMismatch :: "(ID \<times> packInfo) list \<Rightarrow> ID \<times> uint64 \<Rightarrow> bool" where
  "sizeMismatch m f \<longleftrightarrow>
     (\<exists>p. map_of m (fst f) = Some p \<and> unusedSize p + usedSize p \<noteq> snd f \<and> \<not> noLiveBlobs p)"

text \<open>The entries that the loop drops: those of packs without used or duplicate blobs.\<close>

definition unneeded :: "(ID \<times> packInfo) list \<Rightarrow> (ID \<times> packInfo) list" where
  "unneeded es = filter (\<lambda>e. noLiveBlobs (snd e)) es"

text \<open>A runtime whose range over indexPack visits every entry once, in any order.\<close>

definition permuting :: "GoRuntime \<Rightarrow> bool" where
  "permuting rt \<longleftrightarrow> (\<forall>m. mset (range_indexPack rt m) = mset m)"

text \<open>Whether the loop repacks the candidate, from the variables before the iteration.\<close>

definition repacks :: "PruneOptions \<Rightarrow> uint64 \<Rightarrow> packInfoWithID \<Rightarrow> vars \<Rightarrow> bool" where
  "repacks opts maxUnusedSizeAfter p st \<longleftrightarrow>
     \<not> (MaxRepackBytes opts > 0 \<and>
        sizeStats.Repack (Size (stats st)) + unusedSize (packInfo p) + usedSize (packInfo p)
          > MaxRepackBytes opts) \<and>
     (packInfo.duplicateBlobs (packInfo p) > 0 \<or> tpe (packInfo p) \<noteq> DataBlob \<or>
      \<not> (sizeStats.Unused (Size (stats st)) - sizeStats.Remove (Size (stats st))
           - sizeStats.RepackRm (Size (stats st)) < maxUnusedSizeAfter))"

text \<open>The variables at the end of a run without error.\<close>

definition finalVars :: "GoRuntime \<Rightarrow> PruneOptions \<Rightarrow> vars \<Rightarrow> vars" where
  "finalVars rt opts st3 = totals (creditDuplicates (afterSelect rt opts (afterMissing rt st3)))"

text \<open>A runtime whose sort returns the elements of the slice, in any order.\<close>

definition rearranging :: "GoRuntime \<Rightarrow> bool" where
  "rearranging rt \<longleftrightarrow> (\<forall>lt cs. mset (sort_Slice rt lt cs) = mset cs)"

subsection \<open>Examples\<close>

text \<open>An example: packs 100 and 101 share a used blob, pack 102 holds a used tree blob, pack
  103 holds only an unused blob and has another size on disk than the index says, packs 104
  and 105 are indexed, unused and missing on disk, and file 999 is not in the index. The limit is 5 percent,
  that is a nineteenth of the used bytes.\<close>

definition exOpts :: PruneOptions where
  "exOpts = \<lparr>DryRun = False, MaxUnused = ''5%'', maxUnusedBytes = (\<lambda>used. used div 19),
     MaxRepackSize = [], MaxRepackBytes = 0, RepackCachableOnly = False\<rparr>"

definition exRepo :: Repository where
  "exRepo = \<lparr>Each = [
      \<lparr>BlobHandle = (1, DataBlob), Length = 10, PackID = 100\<rparr>,
      \<lparr>BlobHandle = (2, DataBlob), Length = 20, PackID = 100\<rparr>,
      \<lparr>BlobHandle = (1, DataBlob), Length = 10, PackID = 101\<rparr>,
      \<lparr>BlobHandle = (3, TreeBlob), Length = 5, PackID = 102\<rparr>,
      \<lparr>BlobHandle = (4, DataBlob), Length = 7, PackID = 103\<rparr>,
      \<lparr>BlobHandle = (5, DataBlob), Length = 8, PackID = 104\<rparr>,
      \<lparr>BlobHandle = (6, DataBlob), Length = 9, PackID = 105\<rparr>],
    PackSize = [(100, 4), (101, 4), (102, 4), (103, 4), (104, 4), (105, 4)],
    List = [(100, 34), (101, 14), (102, 9), (103, 12), (999, 50)]\<rparr>"

definition exUsed :: "BlobHandle set" where
  "exUsed = {(1, DataBlob), (3, TreeBlob)}"

text \<open>The plan and the statistics of the example run.\<close>

definition exPlan :: prunePlan where
  "exPlan = \<lparr>prunePlan.removePacksFirst = {999}, prunePlan.repackPacks = {100, 101},
     prunePlan.keepBlobs = {(1, DataBlob), (3, TreeBlob)}, prunePlan.removePacks = {103},
     prunePlan.ignorePacks = {104, 105}\<rparr>"

definition exStats :: pruneStats where
  "exStats = \<lparr>MessageType = ''summary'',
     Blobs = \<lparr>blobStats.Used = 2, blobStats.Duplicate = 1, blobStats.Unused = 4,
       blobStats.Total = 7, blobStats.Repack = 3, blobStats.RepackRm = 2, blobStats.Remove = 3,
       blobStats.RemoveTotal = 5, blobStats.Remain = 2, blobStats.RemainUnused = 0\<rparr>,
     Size = \<lparr>sizeStats.Used = 15, sizeStats.Duplicate = 10, sizeStats.Unused = 54,
       sizeStats.Unref = 50, sizeStats.Total = 119, sizeStats.Repack = 48, sizeStats.RepackRm = 30,
       sizeStats.Remove = 24, sizeStats.RemoveTotal = 104, sizeStats.Remain = 15,
       sizeStats.RemainUnused = 0\<rparr>,
     Packs = \<lparr>packStats.Used = 2, packStats.Unused = 1, packStats.PartlyUsed = 1,
       packStats.Unref = 1, packStats.Total = 5, packStats.Keep = 1, packStats.Repack = 2,
       packStats.Remove = 1, packStats.RemoveTotal = 2\<rparr>\<rparr>"

text \<open>The example with another size on disk for the live pack 101, and with the live pack 101
  not on disk.\<close>

definition badRepo :: Repository where
  "badRepo = exRepo\<lparr>List := [(100, 34), (101, 15), (102, 9), (103, 12), (999, 50)]\<rparr>"

definition goneRepo :: Repository where
  "goneRepo = exRepo\<lparr>List := [(100, 34), (102, 9), (103, 12), (999, 50)]\<rparr>"

text \<open>The example with at most 40 bytes to repack.\<close>

definition capOpts :: PruneOptions where
  "capOpts = exOpts\<lparr>MaxRepackSize := ''40'', MaxRepackBytes := 40\<rparr>"

text \<open>The plan and the statistics of the example run with the cap of 40 bytes.\<close>

definition capPlan :: prunePlan where
  "capPlan = exPlan\<lparr>prunePlan.repackPacks := {100}\<rparr>"

definition capStats :: pruneStats where
  "capStats = \<lparr>MessageType = ''summary'',
     Blobs = \<lparr>blobStats.Used = 2, blobStats.Duplicate = 1, blobStats.Unused = 4,
       blobStats.Total = 7, blobStats.Repack = 2, blobStats.RepackRm = 1, blobStats.Remove = 3,
       blobStats.RemoveTotal = 4, blobStats.Remain = 3, blobStats.RemainUnused = 0\<rparr>,
     Size = \<lparr>sizeStats.Used = 15, sizeStats.Duplicate = 10, sizeStats.Unused = 54,
       sizeStats.Unref = 50, sizeStats.Total = 119, sizeStats.Repack = 34, sizeStats.RepackRm = 20,
       sizeStats.Remove = 24, sizeStats.RemoveTotal = 94, sizeStats.Remain = 25,
       sizeStats.RemainUnused = 10\<rparr>,
     Packs = \<lparr>packStats.Used = 2, packStats.Unused = 1, packStats.PartlyUsed = 1,
       packStats.Unref = 1, packStats.Total = 5, packStats.Keep = 2, packStats.Repack = 1,
       packStats.Remove = 1, packStats.RemoveTotal = 2\<rparr>\<rparr>"

text \<open>The two candidates of the example, as the listing leaves them.\<close>

definition cand100 :: packInfoWithID where
  "cand100 = \<lparr>ID = 100, packInfo = \<lparr>packInfo.usedBlobs = 0, unusedBlobs = 1,
     packInfo.duplicateBlobs = 1, usedSize = 14, unusedSize = 20, tpe = DataBlob\<rparr>\<rparr>"

definition cand101 :: packInfoWithID where
  "cand101 = \<lparr>ID = 101, packInfo = \<lparr>packInfo.usedBlobs = 0, unusedBlobs = 0,
     packInfo.duplicateBlobs = 1, usedSize = 14, unusedSize = 0, tpe = DataBlob\<rparr>\<rparr>"

text \<open>Two data packs, each half used, of 2 and of 4 bytes; no unused byte is tolerated and at
  most 4 bytes may be repacked.\<close>

definition tieOpts :: PruneOptions where
  "tieOpts = \<lparr>DryRun = False, MaxUnused = ''0'', maxUnusedBytes = (\<lambda>used. 0),
     MaxRepackSize = ''4'', MaxRepackBytes = 4, RepackCachableOnly = False\<rparr>"

definition tieRepo :: Repository where
  "tieRepo = \<lparr>Each = [
      \<lparr>BlobHandle = (1, DataBlob), Length = 1, PackID = 200\<rparr>,
      \<lparr>BlobHandle = (2, DataBlob), Length = 1, PackID = 200\<rparr>,
      \<lparr>BlobHandle = (3, DataBlob), Length = 2, PackID = 201\<rparr>,
      \<lparr>BlobHandle = (4, DataBlob), Length = 2, PackID = 201\<rparr>],
    PackSize = [(200, 0), (201, 0)],
    List = [(200, 2), (201, 4)]\<rparr>"

definition tieUsed :: "BlobHandle set" where
  "tieUsed = {(1, DataBlob), (3, DataBlob)}"

definition cand200 :: packInfoWithID where
  "cand200 = \<lparr>ID = 200, packInfo = \<lparr>packInfo.usedBlobs = 1, unusedBlobs = 1,
     packInfo.duplicateBlobs = 0, usedSize = 1, unusedSize = 1, tpe = DataBlob\<rparr>\<rparr>"

definition cand201 :: packInfoWithID where
  "cand201 = \<lparr>ID = 201, packInfo = \<lparr>packInfo.usedBlobs = 1, unusedBlobs = 1,
     packInfo.duplicateBlobs = 0, usedSize = 2, unusedSize = 2, tpe = DataBlob\<rparr>\<rparr>"

text \<open>Two data packs of 4 GiB and a byte, the first almost all unused, the second almost all
  used; no unused byte is tolerated and one such pack may be repacked.\<close>

definition hugeOpts :: PruneOptions where
  "hugeOpts = \<lparr>DryRun = False, MaxUnused = ''0'', maxUnusedBytes = (\<lambda>used. 0),
     MaxRepackSize = ''4294967297'', MaxRepackBytes = 4294967297, RepackCachableOnly = False\<rparr>"

definition hugeRepo :: Repository where
  "hugeRepo = \<lparr>Each = [
      \<lparr>BlobHandle = (1, DataBlob), Length = 1, PackID = 1\<rparr>,
      \<lparr>BlobHandle = (2, DataBlob), Length = 4294967296, PackID = 1\<rparr>,
      \<lparr>BlobHandle = (3, DataBlob), Length = 4294967296, PackID = 2\<rparr>,
      \<lparr>BlobHandle = (4, DataBlob), Length = 1, PackID = 2\<rparr>],
    PackSize = [(1, 0), (2, 0)],
    List = [(1, 4294967297), (2, 4294967297)]\<rparr>"

definition hugeLive :: "BlobHandle set" where
  "hugeLive = {(1, DataBlob), (3, DataBlob)}"

definition wastePack :: packInfoWithID where
  "wastePack = \<lparr>ID = 1, packInfo = \<lparr>packInfo.usedBlobs = 1, unusedBlobs = 1,
     packInfo.duplicateBlobs = 0, usedSize = 1, unusedSize = 4294967296, tpe = DataBlob\<rparr>\<rparr>"

definition fullPack :: packInfoWithID where
  "fullPack = \<lparr>ID = 2, packInfo = \<lparr>packInfo.usedBlobs = 1, unusedBlobs = 1,
     packInfo.duplicateBlobs = 0, usedSize = 4294967296, unusedSize = 1, tpe = DataBlob\<rparr>\<rparr>"

text \<open>A library for the examples. It parses the strings of the examples as Go does, trims
  nothing (the examples have no white space), computes exactly on finite values, and converts
  a finite value to an integer by dropping its fraction.\<close>

definition exParseFloat :: "string \<Rightarrow> float64 option" where
  "exParseFloat s =
     (if s = ''NaN'' then Some NaN
      else if s = ''50'' then Some (Finite 50)
      else if s = ''100'' then Some (Finite 100)
      else if s = ''-1'' then Some (Finite (- 1))
      else None)"

definition exParseSizeStr :: "string \<Rightarrow> uint64 option" where
  "exParseSizeStr s = (if s = ''1024'' then Some 1024 else if s = ''1k'' then Some 1024 else None)"

fun exSub :: "float64 \<Rightarrow> float64 \<Rightarrow> float64" where
  "exSub (Finite a) (Finite b) = Finite (a - b)"
| "exSub x y = NaN"

fun exDiv :: "float64 \<Rightarrow> float64 \<Rightarrow> float64" where
  "exDiv (Finite a) (Finite b) = Finite (a / b)"
| "exDiv x y = NaN"

fun exMul :: "float64 \<Rightarrow> float64 \<Rightarrow> float64" where
  "exMul (Finite a) (Finite b) = Finite (a * b)"
| "exMul x y = NaN"

fun exToUint64 :: "float64 \<Rightarrow> uint64" where
  "exToUint64 (Finite a) = of_int \<lfloor>a\<rfloor>"
| "exToUint64 x = 9223372036854775808"

definition exLibrary :: Library where
  "exLibrary = \<lparr>TrimSpace = (\<lambda>s. s), ParseFloat = exParseFloat, parseSizeStr = exParseSizeStr,
     float64_sub = exSub, float64_div = exDiv, float64_mul = exMul,
     float64_of_uint64 = (\<lambda>u. Finite (real (unat u))), uint64_of_float64 = exToUint64\<rparr>"

section \<open>Properties\<close>

subsection \<open>Pass 1\<close>

lemma classifyBlob_usedBlobs:
  "vars.usedBlobs (classifyBlob b st) = vars.usedBlobs st - {BlobHandle b}"
  by (simp add: classifyBlob_def Let_def)

lemma classifyBlob_keepBlobs:
  "vars.keepBlobs (classifyBlob b st) = vars.keepBlobs st \<union> (vars.usedBlobs st \<inter> {BlobHandle b})"
  by (simp add: classifyBlob_def Let_def)

lemma classifyBlob_duplicateBlobs:
  "vars.duplicateBlobs (classifyBlob b st) =
     vars.duplicateBlobs st \<union> ({BlobHandle b} \<inter> (vars.keepBlobs st - vars.usedBlobs st))"
  by (simp add: classifyBlob_def Let_def)

lemma classifyBlob_frame:
  "indexPack (classifyBlob b st) = indexPack st"
  "vars.removePacksFirst (classifyBlob b st) = vars.removePacksFirst st"
  "vars.removePacks (classifyBlob b st) = vars.removePacks st"
  "vars.repackPacks (classifyBlob b st) = vars.repackPacks st"
  "vars.ignorePacks (classifyBlob b st) = vars.ignorePacks st"
  "repackCandidates (classifyBlob b st) = repackCandidates st"
  "repackAllPacksWithDuplicates (classifyBlob b st) = repackAllPacksWithDuplicates st"
  "Packs (stats (classifyBlob b st)) = Packs (stats st)"
  by (simp_all add: classifyBlob_def Let_def)

lemma pass1_usedBlobs:
  "vars.usedBlobs (fold classifyBlob bs st) = vars.usedBlobs st - BlobHandle ` set bs"
  by (induction bs arbitrary: st) (auto simp: classifyBlob_usedBlobs)

lemma pass1_keepBlobs:
  "vars.keepBlobs (fold classifyBlob bs st) =
     vars.keepBlobs st \<union> (vars.usedBlobs st \<inter> BlobHandle ` set bs)"
  by (induction bs arbitrary: st) (auto simp: classifyBlob_usedBlobs classifyBlob_keepBlobs)

lemma pass1_duplicateBlobs_subset:
  "vars.duplicateBlobs st \<subseteq> vars.keepBlobs st \<Longrightarrow>
   vars.duplicateBlobs (fold classifyBlob bs st) \<subseteq> vars.keepBlobs (fold classifyBlob bs st)"
proof (induction bs arbitrary: st)
  case Nil
  then show ?case by simp
next
  case (Cons b bs)
  have "vars.duplicateBlobs (classifyBlob b st) \<subseteq> vars.keepBlobs (classifyBlob b st)"
    using Cons.prems by (auto simp: classifyBlob_duplicateBlobs classifyBlob_keepBlobs)
  then show ?case using Cons.IH by simp
qed

lemma pass1_frame:
  "indexPack (fold classifyBlob bs st) = indexPack st"
  "vars.removePacksFirst (fold classifyBlob bs st) = vars.removePacksFirst st"
  "vars.removePacks (fold classifyBlob bs st) = vars.removePacks st"
  "vars.repackPacks (fold classifyBlob bs st) = vars.repackPacks st"
  "vars.ignorePacks (fold classifyBlob bs st) = vars.ignorePacks st"
  "repackCandidates (fold classifyBlob bs st) = repackCandidates st"
  "repackAllPacksWithDuplicates (fold classifyBlob bs st) = repackAllPacksWithDuplicates st"
  "Packs (stats (fold classifyBlob bs st)) = Packs (stats st)"
  by (induction bs arbitrary: st) (simp_all add: classifyBlob_frame)

lemma afterPass1_usedBlobs:
  "vars.usedBlobs (afterPass1 repo used) = used - BlobHandle ` set (Each repo)"
  by (simp add: afterPass1_def pass1_usedBlobs init_vars_def)

lemma afterPass1_keepBlobs:
  "vars.keepBlobs (afterPass1 repo used) = used \<inter> BlobHandle ` set (Each repo)"
  by (simp add: afterPass1_def pass1_keepBlobs init_vars_def)

lemma afterPass1_duplicateBlobs_subset:
  "vars.duplicateBlobs (afterPass1 repo used) \<subseteq> vars.keepBlobs (afterPass1 repo used)"
  unfolding afterPass1_def by (rule pass1_duplicateBlobs_subset) (simp add: init_vars_def)

lemma afterPass1_frame:
  "indexPack (afterPass1 repo used) = []"
  "vars.removePacksFirst (afterPass1 repo used) = {}"
  "vars.removePacks (afterPass1 repo used) = {}"
  "vars.repackPacks (afterPass1 repo used) = {}"
  "vars.ignorePacks (afterPass1 repo used) = {}"
  "repackCandidates (afterPass1 repo used) = []"
  "repackAllPacksWithDuplicates (afterPass1 repo used) = True"
  "Packs (stats (afterPass1 repo used)) = zero_packStats"
  by (simp_all add: afterPass1_def pass1_frame init_vars_def zero_pruneStats_def)

subsection \<open>Pass 2\<close>

lemma generatePackInfo_frame:
  "vars.usedBlobs (generatePackInfo b st) = vars.usedBlobs st"
  "vars.keepBlobs (generatePackInfo b st) = vars.keepBlobs st"
  "vars.duplicateBlobs (generatePackInfo b st) = vars.duplicateBlobs st"
  "vars.removePacksFirst (generatePackInfo b st) = vars.removePacksFirst st"
  "vars.removePacks (generatePackInfo b st) = vars.removePacks st"
  "vars.repackPacks (generatePackInfo b st) = vars.repackPacks st"
  "vars.ignorePacks (generatePackInfo b st) = vars.ignorePacks st"
  "repackCandidates (generatePackInfo b st) = repackCandidates st"
  "repackAllPacksWithDuplicates (generatePackInfo b st) = repackAllPacksWithDuplicates st"
  "stats (generatePackInfo b st) = stats st"
  by (simp_all add: generatePackInfo_def)

lemma pass2_frame:
  "vars.usedBlobs (fold generatePackInfo bs st) = vars.usedBlobs st"
  "vars.keepBlobs (fold generatePackInfo bs st) = vars.keepBlobs st"
  "vars.duplicateBlobs (fold generatePackInfo bs st) = vars.duplicateBlobs st"
  "vars.removePacksFirst (fold generatePackInfo bs st) = vars.removePacksFirst st"
  "vars.removePacks (fold generatePackInfo bs st) = vars.removePacks st"
  "vars.repackPacks (fold generatePackInfo bs st) = vars.repackPacks st"
  "vars.ignorePacks (fold generatePackInfo bs st) = vars.ignorePacks st"
  "repackCandidates (fold generatePackInfo bs st) = repackCandidates st"
  "repackAllPacksWithDuplicates (fold generatePackInfo bs st) = repackAllPacksWithDuplicates st"
  "stats (fold generatePackInfo bs st) = stats st"
  by (induction bs arbitrary: st) (simp_all add: generatePackInfo_frame)

lemma lookupPack_update:
  "lookupPack (AList.update k v m) pid = (if pid = k then v else lookupPack m pid)"
  by (simp add: lookupPack_def update_conv')

lemma generatePackInfo_lookup:
  "lookupPack (indexPack (generatePackInfo b st)) pid =
     (if pid = PackID b
      then countBlob (vars.keepBlobs st) (vars.duplicateBlobs st) b (lookupPack (indexPack st) pid)
      else lookupPack (indexPack st) pid)"
  by (simp add: generatePackInfo_def lookupPack_update)

lemma countBlob_liveCount:
  "dups \<subseteq> ks \<Longrightarrow>
   liveCount (countBlob ks dups b ip) = liveCount ip + (if BlobHandle b \<in> ks then 1 else 0)"
  by (auto simp: countBlob_def liveCount_def Let_def)

lemma generatePackInfo_liveCount:
  assumes "vars.duplicateBlobs st \<subseteq> vars.keepBlobs st"
  shows "liveCount (lookupPack (indexPack (generatePackInfo b st)) pid) =
     liveCount (lookupPack (indexPack st) pid)
       + (if PackID b = pid \<and> BlobHandle b \<in> vars.keepBlobs st then 1 else 0)"
  by (simp add: generatePackInfo_lookup countBlob_liveCount [OF assms])

lemma pass2_liveCount:
  "vars.duplicateBlobs st \<subseteq> vars.keepBlobs st \<Longrightarrow>
   liveCount (lookupPack (indexPack (fold generatePackInfo bs st)) pid) =
     liveCount (lookupPack (indexPack st) pid) + of_nat (length (liveIn (vars.keepBlobs st) pid bs))"
proof (induction bs arbitrary: st)
  case Nil
  then show ?case by (simp add: liveIn_def)
next
  case (Cons b bs)
  have sub: "vars.duplicateBlobs (generatePackInfo b st) \<subseteq> vars.keepBlobs (generatePackInfo b st)"
    using Cons.prems by (simp add: generatePackInfo_frame)
  show ?case
    using Cons.IH [OF sub]
    by (simp add: generatePackInfo_frame generatePackInfo_liveCount [OF Cons.prems] liveIn_def)
qed

subsection \<open>The decision per pack\<close>

lemma keep_frame:
  "vars.usedBlobs (keep p st) = vars.usedBlobs st"
  "vars.keepBlobs (keep p st) = vars.keepBlobs st"
  "vars.duplicateBlobs (keep p st) = vars.duplicateBlobs st"
  "indexPack (keep p st) = indexPack st"
  "vars.removePacksFirst (keep p st) = vars.removePacksFirst st"
  "vars.removePacks (keep p st) = vars.removePacks st"
  "vars.repackPacks (keep p st) = vars.repackPacks st"
  "vars.ignorePacks (keep p st) = vars.ignorePacks st"
  "repackCandidates (keep p st) = repackCandidates st"
  "Blobs (stats (keep p st)) = Blobs (stats st)"
  "Size (stats (keep p st)) = Size (stats st)"
  by (simp_all add: keep_def Let_def)

lemma countPack_frame:
  "vars.usedBlobs (countPack p st) = vars.usedBlobs st"
  "vars.keepBlobs (countPack p st) = vars.keepBlobs st"
  "vars.duplicateBlobs (countPack p st) = vars.duplicateBlobs st"
  "indexPack (countPack p st) = indexPack st"
  "vars.removePacksFirst (countPack p st) = vars.removePacksFirst st"
  "vars.removePacks (countPack p st) = vars.removePacks st"
  "vars.repackPacks (countPack p st) = vars.repackPacks st"
  "vars.ignorePacks (countPack p st) = vars.ignorePacks st"
  "repackCandidates (countPack p st) = repackCandidates st"
  "repackAllPacksWithDuplicates (countPack p st) = repackAllPacksWithDuplicates st"
  "Blobs (stats (countPack p st)) = Blobs (stats st)"
  "Size (stats (countPack p st)) = Size (stats st)"
  by (simp_all add: countPack_def)

lemma decidePack_frame:
  "vars.usedBlobs (decidePack opts pid p st) = vars.usedBlobs st"
  "vars.keepBlobs (decidePack opts pid p st) = vars.keepBlobs st"
  "vars.duplicateBlobs (decidePack opts pid p st) = vars.duplicateBlobs st"
  "indexPack (decidePack opts pid p st) = indexPack st"
  "vars.removePacksFirst (decidePack opts pid p st) = vars.removePacksFirst st"
  "vars.repackPacks (decidePack opts pid p st) = vars.repackPacks st"
  "vars.ignorePacks (decidePack opts pid p st) = vars.ignorePacks st"
  "sizeStats.Unused (Size (stats (decidePack opts pid p st))) = sizeStats.Unused (Size (stats st))"
  "sizeStats.Duplicate (Size (stats (decidePack opts pid p st))) = sizeStats.Duplicate (Size (stats st))"
  "sizeStats.Used (Size (stats (decidePack opts pid p st))) = sizeStats.Used (Size (stats st))"
  "sizeStats.Unref (Size (stats (decidePack opts pid p st))) = sizeStats.Unref (Size (stats st))"
  "sizeStats.Repack (Size (stats (decidePack opts pid p st))) = sizeStats.Repack (Size (stats st))"
  by (simp_all add: decidePack_def keep_frame)

lemma decidePack_removePacks:
  "vars.removePacks (decidePack opts pid p st) =
     vars.removePacks st \<union> (if noLiveBlobs p then {pid} else {})"
  by (simp add: decidePack_def keep_frame noLiveBlobs_def)

lemma decidePack_repackCandidates:
  "c \<in> set (repackCandidates (decidePack opts pid p st)) \<Longrightarrow>
     c \<in> set (repackCandidates st) \<or> (ID c = pid \<and> packInfo c = p \<and> \<not> noLiveBlobs p)"
  by (auto simp: decidePack_def keep_frame noLiveBlobs_def split: if_splits)

lemma delete_absent: "map_of m k = None \<Longrightarrow> AList.delete k m = m"
  by (induction m) (auto split: if_splits)

lemma listCallback_cases:
  obtains
    (unreferenced) "map_of (indexPack st) (fst f) = None"
      "listCallback opts f st =
         (st\<lparr>vars.removePacksFirst := insert (fst f) (vars.removePacksFirst st),
             stats := Size_update (sizeStats.Unref_update (\<lambda>n. n + snd f)) (stats st)\<rparr>, None)"
  | (mismatch) p where "map_of (indexPack st) (fst f) = Some p"
      "unusedSize p + usedSize p \<noteq> snd f" "\<not> noLiveBlobs p"
      "listCallback opts f st = (st, Some errorSizeNotMatching)"
  | (decided) p where "map_of (indexPack st) (fst f) = Some p"
      "unusedSize p + usedSize p = snd f \<or> noLiveBlobs p"
      "listCallback opts f st =
         ((decidePack opts (fst f) p (countPack p st))
            \<lparr>indexPack := AList.delete (fst f) (indexPack st)\<rparr>, None)"
proof (cases "map_of (indexPack st) (fst f)")
  case None
  then show ?thesis using unreferenced by (simp add: listCallback_def Let_def)
next
  case (Some p)
  show ?thesis
  proof (cases "unusedSize p + usedSize p \<noteq> snd f \<and> \<not> noLiveBlobs p")
    case True
    then show ?thesis using Some mismatch [of p]
      by (simp add: listCallback_def Let_def noLiveBlobs_def)
  next
    case False
    then show ?thesis using Some decided [of p]
      by (simp add: listCallback_def Let_def noLiveBlobs_def decidePack_frame countPack_frame)
  qed
qed

text \<open>What one call of the callback does, in terms of the entry of the pack.\<close>

lemma listCallback_error:
  "snd (listCallback opts f st) =
     (case map_of (indexPack st) (fst f) of
        None \<Rightarrow> None
      | Some p \<Rightarrow> if unusedSize p + usedSize p \<noteq> snd f \<and> \<not> noLiveBlobs p
                  then Some errorSizeNotMatching else None)"
  by (cases rule: listCallback_cases [of st f opts]) auto

lemma listCallback_frame:
  assumes "listCallback opts f st = (st1, err)"
  shows "vars.usedBlobs st1 = vars.usedBlobs st"
    "vars.keepBlobs st1 = vars.keepBlobs st"
    "vars.duplicateBlobs st1 = vars.duplicateBlobs st"
    "vars.repackPacks st1 = vars.repackPacks st"
    "vars.ignorePacks st1 = vars.ignorePacks st"
    "sizeStats.Unused (Size (stats st1)) = sizeStats.Unused (Size (stats st))"
    "sizeStats.Duplicate (Size (stats st1)) = sizeStats.Duplicate (Size (stats st))"
    "sizeStats.Used (Size (stats st1)) = sizeStats.Used (Size (stats st))"
    "sizeStats.Repack (Size (stats st1)) = sizeStats.Repack (Size (stats st))"
  using assms
  by (cases rule: listCallback_cases [of st f opts];
      auto simp: decidePack_frame countPack_frame)+

lemma listCallback_indexPack:
  assumes "listCallback opts f st = (st1, None)"
  shows "indexPack st1 = AList.delete (fst f) (indexPack st)"
  using assms
  by (cases rule: listCallback_cases [of st f opts]) (auto simp: delete_absent)

lemma listCallback_removePacksFirst:
  assumes "listCallback opts f st = (st1, None)"
  shows "vars.removePacksFirst st1 = vars.removePacksFirst st \<union>
           (if map_of (indexPack st) (fst f) = None then {fst f} else {})"
  using assms
  by (cases rule: listCallback_cases [of st f opts])
     (auto simp: decidePack_frame countPack_frame)

lemma listCallback_removePacks:
  assumes "listCallback opts f st = (st1, None)"
  shows "vars.removePacks st1 = vars.removePacks st \<union>
           (if \<exists>p. map_of (indexPack st) (fst f) = Some p \<and> noLiveBlobs p then {fst f} else {})"
  using assms
  by (cases rule: listCallback_cases [of st f opts])
     (auto simp: decidePack_removePacks countPack_frame)

lemma listCallback_repackCandidates:
  assumes "listCallback opts f st = (st1, None)" and "c \<in> set (repackCandidates st1)"
  shows "c \<in> set (repackCandidates st) \<or>
           (ID c = fst f \<and> map_of (indexPack st) (fst f) = Some (packInfo c)
              \<and> \<not> noLiveBlobs (packInfo c))"
  using assms
  by (cases rule: listCallback_cases [of st f opts])
     (auto dest!: decidePack_repackCandidates simp: countPack_frame)

subsection \<open>The loop of repo.List\<close>

lemma repo_List_Cons_None:
  "fn f st = (st1, None) \<Longrightarrow> repo_List fn (f # fs) st = repo_List fn fs st1"
  by simp

lemma repo_List_Cons_Some:
  "fn f st = (st1, Some e) \<Longrightarrow> repo_List fn (f # fs) st = (st1, Some e)"
  by simp

lemma list_ok_step:
  assumes "repo_List fn (f # fs) st = (st', None)"
  obtains st1 where "fn f st = (st1, None)" "repo_List fn fs st1 = (st', None)"
  using assms by (cases "fn f st") (auto split: option.splits)

lemma list_frame:
  assumes "repo_List (listCallback opts) fs st = (st', err)"
  shows "vars.usedBlobs st' = vars.usedBlobs st \<and>
    vars.keepBlobs st' = vars.keepBlobs st \<and>
    vars.duplicateBlobs st' = vars.duplicateBlobs st \<and>
    vars.repackPacks st' = vars.repackPacks st \<and>
    vars.ignorePacks st' = vars.ignorePacks st \<and>
    sizeStats.Unused (Size (stats st')) = sizeStats.Unused (Size (stats st)) \<and>
    sizeStats.Duplicate (Size (stats st')) = sizeStats.Duplicate (Size (stats st)) \<and>
    sizeStats.Used (Size (stats st')) = sizeStats.Used (Size (stats st)) \<and>
    sizeStats.Repack (Size (stats st')) = sizeStats.Repack (Size (stats st))"
  using assms
proof (induction fs arbitrary: st)
  case Nil
  then show ?case by simp
next
  case (Cons f fs)
  obtain st1 e1 where step: "listCallback opts f st = (st1, e1)"
    by (cases "listCallback opts f st")
  note fr = listCallback_frame [OF step]
  show ?case
  proof (cases e1)
    case None
    then have "repo_List (listCallback opts) fs st1 = (st', err)"
      using Cons.prems step by simp
    from Cons.IH [OF this] show ?thesis by (simp add: fr)
  next
    case (Some e)
    then have "st' = st1" using Cons.prems step by simp
    then show ?thesis by (simp add: fr)
  qed
qed

lemma list_error:
  "repo_List (listCallback opts) fs st = (st', Some e) \<Longrightarrow> e = errorSizeNotMatching"
proof (induction fs arbitrary: st)
  case Nil
  then show ?case by simp
next
  case (Cons f fs)
  obtain st1 e1 where step: "listCallback opts f st = (st1, e1)"
    by (cases "listCallback opts f st")
  show ?case
  proof (cases e1)
    case None
    then show ?thesis using Cons step by simp
  next
    case (Some e')
    have "snd (listCallback opts f st) = Some e'" using step Some by simp
    then have "e' = errorSizeNotMatching"
      by (auto simp: listCallback_error split: option.splits if_splits)
    then show ?thesis using Cons.prems step Some by simp
  qed
qed

lemma list_indexPack:
  "repo_List (listCallback opts) fs st = (st', None) \<Longrightarrow>
   indexPack st' = filter (\<lambda>e. fst e \<notin> fst ` set fs) (indexPack st)"
proof (induction fs arbitrary: st)
  case Nil
  then show ?case by simp
next
  case (Cons f fs)
  from Cons.prems obtain st1 where
    step: "listCallback opts f st = (st1, None)" and
    rest: "repo_List (listCallback opts) fs st1 = (st', None)"
    by (rule list_ok_step)
  have "indexPack st1 = filter (\<lambda>e. fst e \<noteq> fst f) (indexPack st)"
    using listCallback_indexPack [OF step] by (simp add: AList.delete_eq case_prod_unfold eq_commute)
  then show ?case using Cons.IH [OF rest] by (auto intro: filter_cong)
qed

lemma map_of_filter_keys:
  "map_of (filter (\<lambda>e. fst e \<notin> S) m) k = (if k \<in> S then None else map_of m k)"
  by (induction m) auto

lemma list_removePacks:
  "repo_List (listCallback opts) fs st = (st', None) \<Longrightarrow>
   vars.removePacks st' = vars.removePacks st \<union>
     {pid \<in> fst ` set fs. \<exists>p. map_of (indexPack st) pid = Some p \<and> noLiveBlobs p}"
proof (induction fs arbitrary: st)
  case Nil
  then show ?case by simp
next
  case (Cons f fs)
  from Cons.prems obtain st1 where
    step: "listCallback opts f st = (st1, None)" and
    rest: "repo_List (listCallback opts) fs st1 = (st', None)"
    by (rule list_ok_step)
  have m1: "map_of (indexPack st1) = (map_of (indexPack st))(fst f := None)"
    using listCallback_indexPack [OF step] by (simp add: delete_conv')
  show ?case
    unfolding Cons.IH [OF rest] listCallback_removePacks [OF step] m1
    by (auto split: if_splits)
qed

lemma list_removePacksFirst:
  "repo_List (listCallback opts) fs st = (st', None) \<Longrightarrow> distinct (map fst fs) \<Longrightarrow>
   vars.removePacksFirst st' = vars.removePacksFirst st \<union>
     {pid \<in> fst ` set fs. map_of (indexPack st) pid = None}"
proof (induction fs arbitrary: st)
  case Nil
  then show ?case by simp
next
  case (Cons f fs)
  from Cons.prems(1) obtain st1 where
    step: "listCallback opts f st = (st1, None)" and
    rest: "repo_List (listCallback opts) fs st1 = (st', None)"
    by (rule list_ok_step)
  have m1: "map_of (indexPack st1) = (map_of (indexPack st))(fst f := None)"
    using listCallback_indexPack [OF step] by (simp add: delete_conv')
  have d: "distinct (map fst fs)" and nf: "fst f \<notin> fst ` set fs"
    using Cons.prems(2) by auto
  show ?case
    unfolding Cons.IH [OF rest d] listCallback_removePacksFirst [OF step] m1
    using nf by (auto split: if_splits)
qed

lemma list_repackCandidates:
  "repo_List (listCallback opts) fs st = (st', None) \<Longrightarrow> c \<in> set (repackCandidates st') \<Longrightarrow>
   c \<in> set (repackCandidates st) \<or>
     (ID c \<in> fst ` set fs \<and> map_of (indexPack st) (ID c) = Some (packInfo c)
        \<and> \<not> noLiveBlobs (packInfo c))"
proof (induction fs arbitrary: st)
  case Nil
  then show ?case by simp
next
  case (Cons f fs)
  from Cons.prems(1) obtain st1 where
    step: "listCallback opts f st = (st1, None)" and
    rest: "repo_List (listCallback opts) fs st1 = (st', None)"
    by (rule list_ok_step)
  have m1: "map_of (indexPack st1) = (map_of (indexPack st))(fst f := None)"
    using listCallback_indexPack [OF step] by (simp add: delete_conv')
  from Cons.IH [OF rest Cons.prems(2)] show ?case
  proof
    assume "c \<in> set (repackCandidates st1)"
    from listCallback_repackCandidates [OF step this] show ?thesis by auto
  next
    assume "ID c \<in> fst ` set fs \<and> map_of (indexPack st1) (ID c) = Some (packInfo c)
        \<and> \<not> noLiveBlobs (packInfo c)"
    then show ?thesis unfolding m1 by (auto split: if_splits)
  qed
qed

lemma listCallback_error_iff:
  "snd (listCallback opts f st) \<noteq> None \<longleftrightarrow> sizeMismatch (indexPack st) f"
  by (auto simp: listCallback_error sizeMismatch_def split: option.splits)

lemma list_error_iff:
  "distinct (map fst fs) \<Longrightarrow>
   snd (repo_List (listCallback opts) fs st) \<noteq> None \<longleftrightarrow>
     (\<exists>f \<in> set fs. sizeMismatch (indexPack st) f)"
proof (induction fs arbitrary: st)
  case Nil
  then show ?case by simp
next
  case (Cons f fs)
  obtain st1 e1 where step: "listCallback opts f st = (st1, e1)"
    by (cases "listCallback opts f st")
  have d: "distinct (map fst fs)" and nf: "fst f \<notin> fst ` set fs"
    using Cons.prems by auto
  show ?case
  proof (cases e1)
    case (Some e)
    have "sizeMismatch (indexPack st) f"
      using listCallback_error_iff [of opts f st] step Some by simp
    then show ?thesis using step Some by auto
  next
    case None
    have nm: "\<not> sizeMismatch (indexPack st) f"
      using listCallback_error_iff [of opts f st] step None by simp
    have m1: "map_of (indexPack st1) = (map_of (indexPack st))(fst f := None)"
      using listCallback_indexPack [of opts f st st1] step None by (simp add: delete_conv')
    have same: "sizeMismatch (indexPack st1) g = sizeMismatch (indexPack st) g" if "g \<in> set fs" for g
    proof -
      have "fst g \<noteq> fst f" using that nf by (metis imageI)
      then show ?thesis by (simp add: sizeMismatch_def m1)
    qed
    have "repo_List (listCallback opts) (f # fs) st = repo_List (listCallback opts) fs st1"
      using step None by simp
    then show ?thesis using Cons.IH [OF d, of st1] nm same by auto
  qed
qed

subsection \<open>The packs missing on disk\<close>

lemma ignoreMissing_frame:
  "vars.usedBlobs (ignoreMissing e st) = vars.usedBlobs st"
  "vars.keepBlobs (ignoreMissing e st) = vars.keepBlobs st"
  "vars.duplicateBlobs (ignoreMissing e st) = vars.duplicateBlobs st"
  "vars.removePacksFirst (ignoreMissing e st) = vars.removePacksFirst st"
  "vars.removePacks (ignoreMissing e st) = vars.removePacks st"
  "vars.repackPacks (ignoreMissing e st) = vars.repackPacks st"
  "repackCandidates (ignoreMissing e st) = repackCandidates st"
  "repackAllPacksWithDuplicates (ignoreMissing e st) = repackAllPacksWithDuplicates st"
  "sizeStats.Unused (Size (stats (ignoreMissing e st))) = sizeStats.Unused (Size (stats st))"
  "sizeStats.Duplicate (Size (stats (ignoreMissing e st))) = sizeStats.Duplicate (Size (stats st))"
  "sizeStats.Used (Size (stats (ignoreMissing e st))) = sizeStats.Used (Size (stats st))"
  "sizeStats.Repack (Size (stats (ignoreMissing e st))) = sizeStats.Repack (Size (stats st))"
  by (simp_all add: ignoreMissing_def Let_def)

lemma ignoreMissing_ignorePacks:
  "vars.ignorePacks (ignoreMissing e st) =
     vars.ignorePacks st \<union> (if noLiveBlobs (snd e) then {fst e} else {})"
  by (simp add: ignoreMissing_def Let_def noLiveBlobs_def)

lemma ignoreMissing_indexPack:
  "indexPack (ignoreMissing e st) =
     (if noLiveBlobs (snd e) then AList.delete (fst e) (indexPack st) else indexPack st)"
  by (simp add: ignoreMissing_def Let_def noLiveBlobs_def)

lemma ignoreMissing_Remove:
  "blobStats.Remove (Blobs (stats (ignoreMissing e st))) =
     blobStats.Remove (Blobs (stats st)) + (if noLiveBlobs (snd e) then unusedBlobs (snd e) else 0)"
  "sizeStats.Remove (Size (stats (ignoreMissing e st))) =
     sizeStats.Remove (Size (stats st)) + (if noLiveBlobs (snd e) then unusedSize (snd e) else 0)"
  by (simp_all add: ignoreMissing_def Let_def noLiveBlobs_def)

lemma missing_frame:
  "vars.usedBlobs (fold ignoreMissing es st) = vars.usedBlobs st"
  "vars.keepBlobs (fold ignoreMissing es st) = vars.keepBlobs st"
  "vars.duplicateBlobs (fold ignoreMissing es st) = vars.duplicateBlobs st"
  "vars.removePacksFirst (fold ignoreMissing es st) = vars.removePacksFirst st"
  "vars.removePacks (fold ignoreMissing es st) = vars.removePacks st"
  "vars.repackPacks (fold ignoreMissing es st) = vars.repackPacks st"
  "repackCandidates (fold ignoreMissing es st) = repackCandidates st"
  "repackAllPacksWithDuplicates (fold ignoreMissing es st) = repackAllPacksWithDuplicates st"
  "sizeStats.Unused (Size (stats (fold ignoreMissing es st))) = sizeStats.Unused (Size (stats st))"
  "sizeStats.Duplicate (Size (stats (fold ignoreMissing es st))) = sizeStats.Duplicate (Size (stats st))"
  "sizeStats.Used (Size (stats (fold ignoreMissing es st))) = sizeStats.Used (Size (stats st))"
  "sizeStats.Repack (Size (stats (fold ignoreMissing es st))) = sizeStats.Repack (Size (stats st))"
  by (induction es arbitrary: st) (simp_all add: ignoreMissing_frame)

lemma missing_ignorePacks:
  "vars.ignorePacks (fold ignoreMissing es st) = vars.ignorePacks st \<union> fst ` set (unneeded es)"
  by (induction es arbitrary: st) (auto simp: ignoreMissing_ignorePacks unneeded_def)

lemma missing_indexPack:
  "indexPack (fold ignoreMissing es st) =
     filter (\<lambda>e. fst e \<notin> fst ` set (unneeded es)) (indexPack st)"
proof (induction es arbitrary: st)
  case Nil
  then show ?case by (simp add: unneeded_def)
next
  case (Cons e es)
  show ?case
  proof (cases "noLiveBlobs (snd e)")
    case True
    then have "indexPack (ignoreMissing e st) = filter (\<lambda>x. fst x \<noteq> fst e) (indexPack st)"
      by (simp add: ignoreMissing_indexPack AList.delete_eq case_prod_unfold eq_commute)
    then show ?thesis using True Cons.IH [of "ignoreMissing e st"]
      by (auto simp: unneeded_def intro: filter_cong)
  next
    case False
    then show ?thesis using Cons.IH [of "ignoreMissing e st"]
      by (simp add: ignoreMissing_indexPack unneeded_def)
  qed
qed

lemma missing_Remove:
  "blobStats.Remove (Blobs (stats (fold ignoreMissing es st))) =
     blobStats.Remove (Blobs (stats st)) + sum_list (map (\<lambda>e. unusedBlobs (snd e)) (unneeded es))"
  "sizeStats.Remove (Size (stats (fold ignoreMissing es st))) =
     sizeStats.Remove (Size (stats st)) + sum_list (map (\<lambda>e. unusedSize (snd e)) (unneeded es))"
  by (induction es arbitrary: st) (simp_all add: ignoreMissing_Remove unneeded_def)

lemma ignoreMissing_commute:
  "ignoreMissing e1 (ignoreMissing e2 st) = ignoreMissing e2 (ignoreMissing e1 st)"
  by (simp add: ignoreMissing_def Let_def insert_commute AList.delete_twist add.commute add.left_commute)

lemma missing_permuted:
  assumes "mset es = mset es'"
  shows "fold ignoreMissing es st = fold ignoreMissing es' st"
proof -
  have "ignoreMissing x \<circ> ignoreMissing y = ignoreMissing y \<circ> ignoreMissing x" for x y
    by (rule ext) (simp add: ignoreMissing_commute)
  then have "fold ignoreMissing es = fold ignoreMissing es'"
    using assms by (intro fold_multiset_equiv) auto
  then show ?thesis by simp
qed

lemma afterMissing_permuting:
  "permuting rt \<Longrightarrow> afterMissing rt st = fold ignoreMissing (indexPack st) st"
  unfolding afterMissing_def by (rule missing_permuted) (simp add: permuting_def)

lemma distinct_keys_unneeded:
  assumes "distinct (map fst m)" and "e \<in> set m"
  shows "fst e \<in> fst ` set (unneeded m) \<longleftrightarrow> noLiveBlobs (snd e)"
proof
  assume "fst e \<in> fst ` set (unneeded m)"
  then obtain e' where e': "e' \<in> set m" "noLiveBlobs (snd e')" "fst e' = fst e"
    by (auto simp: unneeded_def)
  then have "e' = e" using assms by (metis eq_key_imp_eq_value prod.collapse)
  then show "noLiveBlobs (snd e)" using e' by simp
next
  assume "noLiveBlobs (snd e)"
  then show "fst e \<in> fst ` set (unneeded m)" using assms(2) by (auto simp: unneeded_def)
qed

lemma afterMissing_indexPack:
  assumes "permuting rt" and "distinct (map fst (indexPack st))"
  shows "indexPack (afterMissing rt st) = filter (\<lambda>e. \<not> noLiveBlobs (snd e)) (indexPack st)"
  unfolding afterMissing_permuting [OF assms(1)] missing_indexPack
  by (rule filter_cong) (simp_all add: distinct_keys_unneeded [OF assms(2)])

lemma afterMissing_ignorePacks:
  assumes "permuting rt" and "distinct (map fst (indexPack st))"
  shows "vars.ignorePacks (afterMissing rt st) = vars.ignorePacks st \<union>
           {pid. \<exists>p. map_of (indexPack st) pid = Some p \<and> noLiveBlobs p}"
  unfolding afterMissing_permuting [OF assms(1)] missing_ignorePacks
  using assms(2) by (force simp: unneeded_def image_iff)

lemma afterMissing_empty_iff:
  assumes "permuting rt" and "distinct (map fst (indexPack st))"
  shows "indexPack (afterMissing rt st) = [] \<longleftrightarrow>
           (\<forall>pid p. map_of (indexPack st) pid = Some p \<longrightarrow> noLiveBlobs p)"
proof -
  have "indexPack (afterMissing rt st) = [] \<longleftrightarrow> (\<forall>e \<in> set (indexPack st). noLiveBlobs (snd e))"
    unfolding afterMissing_indexPack [OF assms] by (simp add: filter_empty_conv)
  also have "\<dots> \<longleftrightarrow> (\<forall>pid p. map_of (indexPack st) pid = Some p \<longrightarrow> noLiveBlobs p)"
    using assms(2) by (force dest: map_of_SomeD)
  finally show ?thesis .
qed

subsection \<open>The selection of the candidates\<close>

lemma repack_frame:
  "vars.usedBlobs (repack pid p st) = vars.usedBlobs st"
  "vars.keepBlobs (repack pid p st) = vars.keepBlobs st"
  "vars.duplicateBlobs (repack pid p st) = vars.duplicateBlobs st"
  "indexPack (repack pid p st) = indexPack st"
  "vars.removePacksFirst (repack pid p st) = vars.removePacksFirst st"
  "vars.removePacks (repack pid p st) = vars.removePacks st"
  "vars.ignorePacks (repack pid p st) = vars.ignorePacks st"
  "repackCandidates (repack pid p st) = repackCandidates st"
  "repackAllPacksWithDuplicates (repack pid p st) = repackAllPacksWithDuplicates st"
  "Packs (stats (repack pid p st)) = Packs (stats st)"
  "sizeStats.Unused (Size (stats (repack pid p st))) = sizeStats.Unused (Size (stats st))"
  "sizeStats.Duplicate (Size (stats (repack pid p st))) = sizeStats.Duplicate (Size (stats st))"
  "sizeStats.Used (Size (stats (repack pid p st))) = sizeStats.Used (Size (stats st))"
  by (simp_all add: repack_def)

lemma repack_repackPacks:
  "vars.repackPacks (repack pid p st) = insert pid (vars.repackPacks st)"
  by (simp add: repack_def)

lemma repack_Repack:
  "sizeStats.Repack (Size (stats (repack pid p st))) =
     sizeStats.Repack (Size (stats st)) + unusedSize p + usedSize p"
  by (simp add: repack_def add.assoc)

lemma keep_Keep:
  "packStats.Keep (Packs (stats (keep p st))) = packStats.Keep (Packs (stats st)) + 1"
  by (simp add: keep_def Let_def)

lemma selectCandidate_eq:
  "selectCandidate opts mx p st =
     (if repacks opts mx p st then repack (ID p) (packInfo p) st else keep (packInfo p) st)"
  by (auto simp: selectCandidate_def repacks_def reachedRepackSize_def reachedUnusedSizeAfter_def)

lemma selectCandidate_frame:
  "vars.usedBlobs (selectCandidate opts mx p st) = vars.usedBlobs st"
  "vars.keepBlobs (selectCandidate opts mx p st) = vars.keepBlobs st"
  "vars.duplicateBlobs (selectCandidate opts mx p st) = vars.duplicateBlobs st"
  "indexPack (selectCandidate opts mx p st) = indexPack st"
  "vars.removePacksFirst (selectCandidate opts mx p st) = vars.removePacksFirst st"
  "vars.removePacks (selectCandidate opts mx p st) = vars.removePacks st"
  "vars.ignorePacks (selectCandidate opts mx p st) = vars.ignorePacks st"
  "repackCandidates (selectCandidate opts mx p st) = repackCandidates st"
  "sizeStats.Unused (Size (stats (selectCandidate opts mx p st))) = sizeStats.Unused (Size (stats st))"
  "sizeStats.Duplicate (Size (stats (selectCandidate opts mx p st))) = sizeStats.Duplicate (Size (stats st))"
  "sizeStats.Used (Size (stats (selectCandidate opts mx p st))) = sizeStats.Used (Size (stats st))"
  by (simp_all add: selectCandidate_eq repack_frame keep_frame)

lemma selectCandidate_repackPacks:
  "vars.repackPacks (selectCandidate opts mx p st) =
     vars.repackPacks st \<union> (if repacks opts mx p st then {ID p} else {})"
  by (simp add: selectCandidate_eq repack_repackPacks keep_frame)

lemma selectCandidate_cap:
  assumes "MaxRepackBytes opts > 0"
    and "sizeStats.Repack (Size (stats st)) \<le> MaxRepackBytes opts"
  shows "sizeStats.Repack (Size (stats (selectCandidate opts mx p st))) \<le> MaxRepackBytes opts"
  using assms by (auto simp: selectCandidate_eq repack_Repack keep_frame repacks_def)

lemma select_frame:
  "vars.usedBlobs (fold (selectCandidate opts mx) cs st) = vars.usedBlobs st"
  "vars.keepBlobs (fold (selectCandidate opts mx) cs st) = vars.keepBlobs st"
  "vars.duplicateBlobs (fold (selectCandidate opts mx) cs st) = vars.duplicateBlobs st"
  "indexPack (fold (selectCandidate opts mx) cs st) = indexPack st"
  "vars.removePacksFirst (fold (selectCandidate opts mx) cs st) = vars.removePacksFirst st"
  "vars.removePacks (fold (selectCandidate opts mx) cs st) = vars.removePacks st"
  "vars.ignorePacks (fold (selectCandidate opts mx) cs st) = vars.ignorePacks st"
  "repackCandidates (fold (selectCandidate opts mx) cs st) = repackCandidates st"
  "sizeStats.Unused (Size (stats (fold (selectCandidate opts mx) cs st))) = sizeStats.Unused (Size (stats st))"
  "sizeStats.Duplicate (Size (stats (fold (selectCandidate opts mx) cs st))) = sizeStats.Duplicate (Size (stats st))"
  "sizeStats.Used (Size (stats (fold (selectCandidate opts mx) cs st))) = sizeStats.Used (Size (stats st))"
  by (induction cs arbitrary: st) (simp_all add: selectCandidate_frame)

lemma select_repackPacks_subset:
  "vars.repackPacks (fold (selectCandidate opts mx) cs st) \<subseteq> vars.repackPacks st \<union> ID ` set cs"
proof (induction cs arbitrary: st)
  case Nil
  then show ?case by simp
next
  case (Cons c cs)
  have "vars.repackPacks (selectCandidate opts mx c st) \<subseteq> insert (ID c) (vars.repackPacks st)"
    by (auto simp: selectCandidate_repackPacks split: if_splits)
  then show ?case using Cons.IH [of "selectCandidate opts mx c st"] by auto
qed

lemma select_repackPacks_mono:
  "vars.repackPacks st \<subseteq> vars.repackPacks (fold (selectCandidate opts mx) cs st)"
proof (induction cs arbitrary: st)
  case Nil
  then show ?case by simp
next
  case (Cons c cs)
  have "vars.repackPacks st \<subseteq> vars.repackPacks (selectCandidate opts mx c st)"
    by (auto simp: selectCandidate_repackPacks)
  then show ?case using Cons.IH [of "selectCandidate opts mx c st"] by auto
qed

lemma select_cap:
  assumes "MaxRepackBytes opts > 0"
  shows "sizeStats.Repack (Size (stats st)) \<le> MaxRepackBytes opts \<Longrightarrow>
    sizeStats.Repack (Size (stats (fold (selectCandidate opts mx) cs st))) \<le> MaxRepackBytes opts"
  by (induction cs arbitrary: st) (simp_all add: selectCandidate_cap [OF assms])

lemma select_member:
  assumes "distinct (map ID (pre @ p # post))" and "ID p \<notin> vars.repackPacks st"
  shows "ID p \<in> vars.repackPacks (fold (selectCandidate opts mx) (pre @ p # post) st) \<longleftrightarrow>
           repacks opts mx p (fold (selectCandidate opts mx) pre st)"
proof -
  let ?sk = "fold (selectCandidate opts mx) pre st"
  let ?s1 = "selectCandidate opts mx p ?sk"
  have notpre: "ID p \<notin> vars.repackPacks ?sk"
    using select_repackPacks_subset [of opts mx pre st] assms by auto
  have notpost: "ID p \<notin> ID ` set post" using assms(1) by auto
  have "ID p \<in> vars.repackPacks (fold (selectCandidate opts mx) post ?s1) \<longleftrightarrow>
          ID p \<in> vars.repackPacks ?s1"
    using select_repackPacks_subset [of opts mx post ?s1]
      select_repackPacks_mono [of ?s1 opts mx post] notpost by auto
  also have "\<dots> \<longleftrightarrow> repacks opts mx p ?sk"
    using notpre by (simp add: selectCandidate_repackPacks)
  finally show ?thesis by simp
qed

subsection \<open>The totals\<close>

lemma creditDuplicates_frame:
  "vars.usedBlobs (creditDuplicates st) = vars.usedBlobs st"
  "vars.keepBlobs (creditDuplicates st) = vars.keepBlobs st"
  "vars.duplicateBlobs (creditDuplicates st) = vars.duplicateBlobs st"
  "indexPack (creditDuplicates st) = indexPack st"
  "vars.removePacksFirst (creditDuplicates st) = vars.removePacksFirst st"
  "vars.removePacks (creditDuplicates st) = vars.removePacks st"
  "vars.repackPacks (creditDuplicates st) = vars.repackPacks st"
  "vars.ignorePacks (creditDuplicates st) = vars.ignorePacks st"
  "sizeStats.Unused (Size (stats (creditDuplicates st))) = sizeStats.Unused (Size (stats st))"
  "sizeStats.Duplicate (Size (stats (creditDuplicates st))) = sizeStats.Duplicate (Size (stats st))"
  "sizeStats.Used (Size (stats (creditDuplicates st))) = sizeStats.Used (Size (stats st))"
  "sizeStats.Repack (Size (stats (creditDuplicates st))) = sizeStats.Repack (Size (stats st))"
  by (simp_all add: creditDuplicates_def Let_def)

lemma totals_frame:
  "vars.usedBlobs (totals st) = vars.usedBlobs st"
  "vars.keepBlobs (totals st) = vars.keepBlobs st"
  "vars.duplicateBlobs (totals st) = vars.duplicateBlobs st"
  "indexPack (totals st) = indexPack st"
  "vars.removePacksFirst (totals st) = vars.removePacksFirst st"
  "vars.removePacks (totals st) = vars.removePacks st"
  "vars.repackPacks (totals st) = vars.repackPacks st"
  "vars.ignorePacks (totals st) = vars.ignorePacks st"
  by (simp_all add: totals_def)

lemma totals_Blobs:
  "Blobs (stats (totals st)) = blobTotals (Blobs (stats st))"
  "Size (stats (totals st)) = sizeTotals (Size (stats st))"
  by (simp_all add: totals_def)

lemma blobTotals_closure:
  "blobStats.Total (blobTotals b) =
     blobStats.Used (blobTotals b) + blobStats.Unused (blobTotals b) + blobStats.Duplicate (blobTotals b)"
  "blobStats.RemoveTotal (blobTotals b) =
     blobStats.Remove (blobTotals b) + blobStats.RepackRm (blobTotals b)"
  "blobStats.Remain (blobTotals b) = blobStats.Total (blobTotals b) - blobStats.RemoveTotal (blobTotals b)"
  by (simp_all add: blobTotals_def Let_def)

lemma sizeTotals_closure:
  "sizeStats.Total (sizeTotals s) =
     sizeStats.Used (sizeTotals s) + sizeStats.Duplicate (sizeTotals s) + sizeStats.Unused s
       + sizeStats.Unref (sizeTotals s)"
  "sizeStats.Unused (sizeTotals s) = sizeStats.Duplicate s + sizeStats.Unused s"
  "sizeStats.Duplicate (sizeTotals s) = sizeStats.Duplicate s"
  "sizeStats.Repack (sizeTotals s) = sizeStats.Repack s"
  "sizeStats.RemoveTotal (sizeTotals s) =
     sizeStats.Remove (sizeTotals s) + sizeStats.RepackRm (sizeTotals s) + sizeStats.Unref (sizeTotals s)"
  "sizeStats.Remain (sizeTotals s) = sizeStats.Total (sizeTotals s) - sizeStats.RemoveTotal (sizeTotals s)"
  by (simp_all add: sizeTotals_def Let_def)

subsection \<open>planPrune by phases\<close>

lemma afterSelect_frame:
  "vars.usedBlobs (afterSelect rt opts st) = vars.usedBlobs st"
  "vars.keepBlobs (afterSelect rt opts st) = vars.keepBlobs st"
  "vars.duplicateBlobs (afterSelect rt opts st) = vars.duplicateBlobs st"
  "indexPack (afterSelect rt opts st) = indexPack st"
  "vars.removePacksFirst (afterSelect rt opts st) = vars.removePacksFirst st"
  "vars.removePacks (afterSelect rt opts st) = vars.removePacks st"
  "vars.ignorePacks (afterSelect rt opts st) = vars.ignorePacks st"
  "sizeStats.Unused (Size (stats (afterSelect rt opts st))) = sizeStats.Unused (Size (stats st))"
  "sizeStats.Duplicate (Size (stats (afterSelect rt opts st))) = sizeStats.Duplicate (Size (stats st))"
  "sizeStats.Used (Size (stats (afterSelect rt opts st))) = sizeStats.Used (Size (stats st))"
  by (simp_all add: afterSelect_def Let_def select_frame)

lemma afterSelect_repackPacks:
  "vars.repackPacks (afterSelect rt opts st) \<subseteq>
     vars.repackPacks st \<union> ID ` set (sort_Slice rt candidateLess (repackCandidates st))"
proof -
  let ?cs = "sort_Slice rt candidateLess (repackCandidates st)"
  show ?thesis
    using select_repackPacks_subset [of opts "maxUnusedBytes opts (sizeStats.Used (Size (stats st)))"
        ?cs "st\<lparr>repackCandidates := ?cs\<rparr>"]
    by (simp add: afterSelect_def Let_def)
qed

lemma afterSelect_cap:
  "MaxRepackBytes opts > 0 \<Longrightarrow> sizeStats.Repack (Size (stats st)) \<le> MaxRepackBytes opts \<Longrightarrow>
   sizeStats.Repack (Size (stats (afterSelect rt opts st))) \<le> MaxRepackBytes opts"
  by (simp add: afterSelect_def Let_def select_cap)

lemma planPrune_success:
  assumes "planPrune rt opts repo used = (plan, sts, None)"
  obtains st3 where "vars.usedBlobs (afterPass1 repo used) = {}"
    "afterList opts repo used = (st3, None)"
    "indexPack (afterMissing rt st3) = []"
    "plan = planOf (finalVars rt opts st3)"
    "sts = stats (finalVars rt opts st3)"
  using assms
  by (auto simp: planPrune_def Let_def finalVars_def split: if_splits prod.splits option.splits)

lemma planPrune_error:
  "snd (snd (planPrune rt opts repo used)) =
     (if vars.usedBlobs (afterPass1 repo used) \<noteq> {} then Some errorIndexIncomplete
      else case snd (afterList opts repo used) of
        Some e \<Rightarrow> Some e
      | None \<Rightarrow> if indexPack (afterMissing rt (fst (afterList opts repo used))) \<noteq> []
                then Some errorPacksMissing else None)"
  by (auto simp: planPrune_def Let_def split: prod.splits option.splits)

subsection \<open>The entries of indexPack after the second pass\<close>

lemma seed_liveCount:
  "liveCount (lookupPack m pid) = 0 \<Longrightarrow> liveCount (lookupPack (fold seedPack ps m) pid) = 0"
proof (induction ps arbitrary: m)
  case Nil
  then show ?case by simp
next
  case (Cons e ps)
  have "liveCount (lookupPack (seedPack e m) pid) = 0"
    using Cons.prems by (simp add: seedPack_def lookupPack_update liveCount_def zero_packInfo_def)
  then show ?case using Cons.IH by simp
qed

lemma seed_distinct:
  "distinct (map fst m) \<Longrightarrow> distinct (map fst (fold seedPack ps m))"
  by (induction ps arbitrary: m) (simp_all add: seedPack_def distinct_update)

lemma pass2_distinct:
  "distinct (map fst (indexPack st)) \<Longrightarrow>
   distinct (map fst (indexPack (fold generatePackInfo bs st)))"
  by (induction bs arbitrary: st) (simp_all add: generatePackInfo_def distinct_update)

lemma afterPass2_frame:
  "vars.usedBlobs (afterPass2 repo used) = vars.usedBlobs (afterPass1 repo used)"
  "vars.keepBlobs (afterPass2 repo used) = vars.keepBlobs (afterPass1 repo used)"
  "vars.duplicateBlobs (afterPass2 repo used) = vars.duplicateBlobs (afterPass1 repo used)"
  "vars.removePacksFirst (afterPass2 repo used) = {}"
  "vars.removePacks (afterPass2 repo used) = {}"
  "vars.repackPacks (afterPass2 repo used) = {}"
  "vars.ignorePacks (afterPass2 repo used) = {}"
  "repackCandidates (afterPass2 repo used) = []"
  "stats (afterPass2 repo used) = stats (afterPass1 repo used)"
  by (simp_all add: afterPass2_def pass2_frame afterPass1_frame)

lemma afterPass2_distinct: "distinct (map fst (indexPack (afterPass2 repo used)))"
  unfolding afterPass2_def by (rule pass2_distinct) (simp add: seed_distinct)

lemma afterPass2_liveCount:
  "liveCount (lookupPack (indexPack (afterPass2 repo used)) pid) =
     of_nat (length (liveIn (vars.keepBlobs (afterPass1 repo used)) pid (Each repo)))"
proof -
  let ?st = "(afterPass1 repo used)\<lparr>indexPack := fold seedPack (PackSize repo) []\<rparr>"
  have sub: "vars.duplicateBlobs ?st \<subseteq> vars.keepBlobs ?st"
    using afterPass1_duplicateBlobs_subset [of repo used] by simp
  have zero: "liveCount (lookupPack (indexPack ?st) pid) = 0"
    using seed_liveCount [of "[]" pid "PackSize repo"]
    by (simp add: lookupPack_def liveCount_def zero_packInfo_def)
  show ?thesis
    unfolding afterPass2_def using pass2_liveCount [OF sub, of "Each repo" pid] zero by simp
qed

lemma word64_of_nat_zero:
  assumes "n < 2 ^ 64" and "(of_nat n :: 64 word) = 0"
  shows "n = 0"
proof -
  have "unat (of_nat n :: 64 word) = n"
    using assms(1) by (intro of_nat_inverse) simp_all
  then show ?thesis using assms(2) by simp
qed

lemma noLiveBlobs_no_kept_blob:
  assumes "map_of (indexPack (afterPass2 repo used)) pid = Some p" and "noLiveBlobs p"
    and "length (Each repo) < 2 ^ 64"
    and "b \<in> set (Each repo)" and "PackID b = pid"
  shows "BlobHandle b \<notin> vars.keepBlobs (afterPass1 repo used)"
proof -
  let ?live = "liveIn (vars.keepBlobs (afterPass1 repo used)) pid (Each repo)"
  have "lookupPack (indexPack (afterPass2 repo used)) pid = p"
    using assms(1) by (simp add: lookupPack_def)
  then have "(of_nat (length ?live) :: 64 word) = 0"
    using afterPass2_liveCount [of repo used pid] assms(2) by (simp add: liveCount_def noLiveBlobs_def)
  moreover have "length ?live < 2 ^ 64"
    using assms(3) le_less_trans [OF length_filter_le] unfolding liveIn_def by blast
  ultimately have "length ?live = 0" by (rule word64_of_nat_zero [rotated])
  then have "?live = []" by simp
  then show ?thesis using assms(4,5) by (auto simp: liveIn_def filter_empty_conv)
qed

subsection \<open>The variables of a run without error\<close>

lemma afterList_frame:
  assumes "afterList opts repo used = (st3, err)"
  shows "vars.keepBlobs st3 = vars.keepBlobs (afterPass1 repo used)"
    "vars.duplicateBlobs st3 = vars.duplicateBlobs (afterPass1 repo used)"
    "vars.repackPacks st3 = {}"
    "vars.ignorePacks st3 = {}"
    "sizeStats.Unused (Size (stats st3)) = sizeStats.Unused (Size (stats (afterPass1 repo used)))"
    "sizeStats.Duplicate (Size (stats st3)) = sizeStats.Duplicate (Size (stats (afterPass1 repo used)))"
    "sizeStats.Repack (Size (stats st3)) = sizeStats.Repack (Size (stats (afterPass1 repo used)))"
  using list_frame [OF assms [unfolded afterList_def]] by (simp_all add: afterPass2_frame)

lemma afterList_indexPack:
  assumes "afterList opts repo used = (st3, None)"
  shows "indexPack st3 =
     filter (\<lambda>e. fst e \<notin> fst ` set (List repo)) (indexPack (afterPass2 repo used))"
  using list_indexPack [OF assms [unfolded afterList_def]] .

lemma afterList_distinct:
  assumes "afterList opts repo used = (st3, None)"
  shows "distinct (map fst (indexPack st3))"
  unfolding afterList_indexPack [OF assms] using afterPass2_distinct by (rule distinct_map_filter)

lemma afterList_removePacks:
  assumes "afterList opts repo used = (st3, None)"
  shows "vars.removePacks st3 =
     {pid \<in> fst ` set (List repo).
        \<exists>p. map_of (indexPack (afterPass2 repo used)) pid = Some p \<and> noLiveBlobs p}"
  using list_removePacks [OF assms [unfolded afterList_def]] by (simp add: afterPass2_frame)

lemma afterList_removePacksFirst:
  assumes "afterList opts repo used = (st3, None)" and "distinct (map fst (List repo))"
  shows "vars.removePacksFirst st3 =
     {pid \<in> fst ` set (List repo). map_of (indexPack (afterPass2 repo used)) pid = None}"
  using list_removePacksFirst [OF assms(1) [unfolded afterList_def] assms(2)]
  by (simp add: afterPass2_frame)

lemma afterList_repackCandidates:
  assumes "afterList opts repo used = (st3, None)" and "c \<in> set (repackCandidates st3)"
  shows "ID c \<in> fst ` set (List repo) \<and>
     map_of (indexPack (afterPass2 repo used)) (ID c) = Some (packInfo c) \<and>
     \<not> noLiveBlobs (packInfo c)"
  using list_repackCandidates [OF assms(1) [unfolded afterList_def] assms(2)]
  by (simp add: afterPass2_frame)

lemma finalVars_frame:
  "vars.keepBlobs (finalVars rt opts st3) = vars.keepBlobs st3"
  "vars.removePacksFirst (finalVars rt opts st3) = vars.removePacksFirst st3"
  "vars.removePacks (finalVars rt opts st3) = vars.removePacks st3"
  "vars.ignorePacks (finalVars rt opts st3) = vars.ignorePacks (afterMissing rt st3)"
  "vars.repackPacks (finalVars rt opts st3) = vars.repackPacks (afterSelect rt opts (afterMissing rt st3))"
  by (simp_all add: finalVars_def totals_frame creditDuplicates_frame afterSelect_frame
      afterMissing_def missing_frame)

lemma planOf_simps:
  "prunePlan.removePacksFirst (planOf st) = vars.removePacksFirst st"
  "prunePlan.repackPacks (planOf st) = vars.repackPacks st"
  "prunePlan.keepBlobs (planOf st) = vars.keepBlobs st"
  "prunePlan.removePacks (planOf st) = vars.removePacks st"
  "prunePlan.ignorePacks (planOf st) = vars.ignorePacks st"
  by (simp_all add: planOf_def)

lemmas run_defs = planPrune_def afterPass1_def afterPass2_def afterList_def
    afterMissing_def afterSelect_def smallRuntime_def init_vars_def classifyBlob_def zero_pruneStats_def
    zero_blobStats_def zero_sizeStats_def zero_packStats_def seedPack_def generatePackInfo_def countBlob_def
    lookupPack_def zero_packInfo_def Type_def listCallback_def countPack_def decidePack_def keep_def
    ignoreMissing_def insertionSort_def candidateLess_def selectCandidate_def reachedRepackSize_def
    reachedUnusedSizeAfter_def repack_def creditDuplicates_def totals_def blobTotals_def sizeTotals_def
    packTotals_def planOf_def zero_prunePlan_def AList.delete_eq Let_def

text \<open>Claim C1. Safety of the plan: when planPrune returns without error, every handle of
  the set usedBlobs it was given is in plan.keepBlobs, as is every duplicate handle; every pack of
  plan.removePacks has an entry with zero used and zero duplicate blobs, and no indexed blob of
  such a pack has its handle in keepBlobs or in duplicateBlobs. The counters are 64-bit, so the
  enumeration is taken to have fewer than 2^64 blobs.\<close>

theorem plan_safety:
  assumes "planPrune rt opts repo used = (plan, sts, None)"
    and "length (Each repo) < 2 ^ 64"
  shows "used \<subseteq> prunePlan.keepBlobs plan \<and>
    vars.duplicateBlobs (afterPass1 repo used) \<subseteq> prunePlan.keepBlobs plan \<and>
    (\<forall>pid \<in> prunePlan.removePacks plan.
       (\<exists>p. map_of (indexPack (afterPass2 repo used)) pid = Some p \<and>
            packInfo.usedBlobs p = 0 \<and> packInfo.duplicateBlobs p = 0) \<and>
       (\<forall>b \<in> set (Each repo). PackID b = pid \<longrightarrow>
            BlobHandle b \<notin> prunePlan.keepBlobs plan \<and>
            BlobHandle b \<notin> vars.duplicateBlobs (afterPass1 repo used)))"
proof -
  from assms(1) obtain st3 where
    used: "vars.usedBlobs (afterPass1 repo used) = {}" and
    list: "afterList opts repo used = (st3, None)" and
    plan: "plan = planOf (finalVars rt opts st3)"
    by (rule planPrune_success)
  have kb: "prunePlan.keepBlobs plan = vars.keepBlobs (afterPass1 repo used)"
    by (simp add: plan planOf_simps finalVars_frame afterList_frame [OF list])
  have rp: "prunePlan.removePacks plan = vars.removePacks st3"
    by (simp add: plan planOf_simps finalVars_frame)
  have "used \<subseteq> BlobHandle ` set (Each repo)"
    using used by (simp add: afterPass1_usedBlobs)
  then have 1: "used \<subseteq> prunePlan.keepBlobs plan"
    by (auto simp: kb afterPass1_keepBlobs)
  have 2: "vars.duplicateBlobs (afterPass1 repo used) \<subseteq> prunePlan.keepBlobs plan"
    unfolding kb by (rule afterPass1_duplicateBlobs_subset)
  have 3: "(\<exists>p. map_of (indexPack (afterPass2 repo used)) pid = Some p \<and>
            packInfo.usedBlobs p = 0 \<and> packInfo.duplicateBlobs p = 0) \<and>
       (\<forall>b \<in> set (Each repo). PackID b = pid \<longrightarrow>
            BlobHandle b \<notin> prunePlan.keepBlobs plan \<and>
            BlobHandle b \<notin> vars.duplicateBlobs (afterPass1 repo used))"
    if "pid \<in> prunePlan.removePacks plan" for pid
  proof -
    from that obtain p where
      p: "map_of (indexPack (afterPass2 repo used)) pid = Some p" and dead: "noLiveBlobs p"
      unfolding rp afterList_removePacks [OF list] by auto
    have "BlobHandle b \<notin> prunePlan.keepBlobs plan" if "b \<in> set (Each repo)" "PackID b = pid" for b
      unfolding kb using p dead assms(2) that by (rule noLiveBlobs_no_kept_blob)
    then show ?thesis using p dead 2 by (auto simp: noLiveBlobs_def)
  qed
  from 1 2 3 show ?thesis by blast
qed

text \<open>Claim C2, as amended. Accounting closure: after a run without error,
  blobs.total = used + unused + duplicate; bytes.total = used + duplicate + unused + unreferenced,
  with the unused bytes as the first pass accumulated them, while the reported unused bytes are
  those plus the duplicate bytes; bytes.remove_total = remove + repack_rm + unreferenced;
  blobs.remove_total = remove + repack_rm, the blob grouping having no unreferenced counter;
  remain = total - remove_total in both groupings. The arithmetic is that of the 64-bit
  counters.\<close>

theorem accounting_closure:
  assumes "planPrune rt opts repo used = (plan, sts, None)"
  shows "blobStats.Total (Blobs sts) =
      blobStats.Used (Blobs sts) + blobStats.Unused (Blobs sts) + blobStats.Duplicate (Blobs sts) \<and>
    sizeStats.Total (Size sts) =
      sizeStats.Used (Size sts) + sizeStats.Duplicate (Size sts)
        + sizeStats.Unused (Size (stats (afterPass1 repo used))) + sizeStats.Unref (Size sts) \<and>
    sizeStats.Unused (Size sts) =
      sizeStats.Duplicate (Size sts) + sizeStats.Unused (Size (stats (afterPass1 repo used))) \<and>
    blobStats.RemoveTotal (Blobs sts) = blobStats.Remove (Blobs sts) + blobStats.RepackRm (Blobs sts) \<and>
    sizeStats.RemoveTotal (Size sts) =
      sizeStats.Remove (Size sts) + sizeStats.RepackRm (Size sts) + sizeStats.Unref (Size sts) \<and>
    blobStats.Remain (Blobs sts) = blobStats.Total (Blobs sts) - blobStats.RemoveTotal (Blobs sts) \<and>
    sizeStats.Remain (Size sts) = sizeStats.Total (Size sts) - sizeStats.RemoveTotal (Size sts)"
proof -
  from assms obtain st3 where
    list: "afterList opts repo used = (st3, None)" and
    sts: "sts = stats (finalVars rt opts st3)"
    by (rule planPrune_success)
  let ?pre = "creditDuplicates (afterSelect rt opts (afterMissing rt st3))"
  have b: "Blobs sts = blobTotals (Blobs (stats ?pre))" and s: "Size sts = sizeTotals (Size (stats ?pre))"
    by (simp_all add: sts finalVars_def totals_Blobs)
  have u: "sizeStats.Unused (Size (stats ?pre)) = sizeStats.Unused (Size (stats (afterPass1 repo used)))"
    by (simp add: creditDuplicates_frame afterSelect_frame afterMissing_def missing_frame
        afterList_frame [OF list])
  show ?thesis
    unfolding b s using u by (simp add: blobTotals_closure sizeTotals_closure)
qed

text \<open>Claim C3. Index completeness check: planPrune fails with errorIndexIncomplete exactly
  when a handle of the given used set is not the handle of any indexed blob; then the plan is the
  zero plan, the statistics are those of the first pass, with no pack counted, and
  runPruneWithRepo returns the error with the backend as it was, doPrune not being called.\<close>

theorem index_incomplete:
  "(snd (snd (planPrune rt opts repo used)) = Some errorIndexIncomplete \<longleftrightarrow>
      (\<exists>h \<in> used. h \<notin> BlobHandle ` set (Each repo))) \<and>
   ((\<exists>h \<in> used. h \<notin> BlobHandle ` set (Each repo)) \<longrightarrow>
      planPrune rt opts repo used =
        (zero_prunePlan, stats (afterPass1 repo used), Some errorIndexIncomplete) \<and>
      Packs (stats (afterPass1 repo used)) = zero_packStats \<and>
      runPruneWithRepo rt printPruneStats doPrune fatal opts repo used backend =
        (backend, Some (fatal errorIndexIncomplete)))"
proof -
  have ne: "vars.usedBlobs (afterPass1 repo used) \<noteq> {} \<longleftrightarrow>
      (\<exists>h \<in> used. h \<notin> BlobHandle ` set (Each repo))"
    by (auto simp: afterPass1_usedBlobs)
  have other: "snd (afterList opts repo used) \<noteq> Some errorIndexIncomplete"
  proof (cases "afterList opts repo used")
    case (Pair st3 err)
    then show ?thesis using list_error [of opts "List repo" "afterPass2 repo used" st3]
      by (cases err) (auto simp: afterList_def)
  qed
  have 1: "snd (snd (planPrune rt opts repo used)) = Some errorIndexIncomplete \<longleftrightarrow>
      (\<exists>h \<in> used. h \<notin> BlobHandle ` set (Each repo))"
    unfolding planPrune_error ne [symmetric] using other by (auto split: option.splits)
  have 2: "planPrune rt opts repo used =
        (zero_prunePlan, stats (afterPass1 repo used), Some errorIndexIncomplete)"
    if "\<exists>h \<in> used. h \<notin> BlobHandle ` set (Each repo)"
    using that ne by (simp add: planPrune_def Let_def)
  show ?thesis using 1 2 by (simp add: runPruneWithRepo_def afterPass1_frame)
qed

lemma exRun: "planPrune smallRuntime exOpts exRepo exUsed = (exPlan, exStats, None)"
  by (simp add: run_defs exOpts_def exRepo_def exUsed_def exPlan_def exStats_def insert_commute)

lemma exPass1_Unused: "sizeStats.Unused (Size (stats (afterPass1 exRepo exUsed))) = 44"
  by (simp add: run_defs exRepo_def exUsed_def)

text \<open>The example run satisfies the hypotheses of the safety theorem: pack 103 is removed, and
  its only blob, unused, is not kept.\<close>

theorem plan_safety_witness:
  "planPrune smallRuntime exOpts exRepo exUsed = (exPlan, exStats, None) \<and>
   length (Each exRepo) < 2 ^ 64 \<and>
   exUsed \<subseteq> prunePlan.keepBlobs exPlan \<and>
   103 \<in> prunePlan.removePacks exPlan \<and>
   \<lparr>BlobHandle = (4, DataBlob), Length = 7, PackID = 103\<rparr> \<in> set (Each exRepo) \<and>
   (4, DataBlob) \<notin> prunePlan.keepBlobs exPlan"
proof -
  have len: "length (Each exRepo) < 2 ^ 64" by (simp add: exRepo_def)
  have pack: "103 \<in> prunePlan.removePacks exPlan" by (simp add: exPlan_def)
  have blob: "\<lparr>BlobHandle = (4, DataBlob), Length = 7, PackID = 103\<rparr> \<in> set (Each exRepo)"
    by (simp add: exRepo_def)
  from plan_safety [OF exRun len] pack blob
  have "BlobHandle \<lparr>BlobHandle = (4, DataBlob), Length = 7, PackID = 103\<rparr>
          \<notin> prunePlan.keepBlobs exPlan"
    by fastforce
  moreover from plan_safety [OF exRun len] have "exUsed \<subseteq> prunePlan.keepBlobs exPlan" by blast
  ultimately show ?thesis using exRun len pack blob by simp
qed

text \<open>The totals of the example run.\<close>

theorem accounting_closure_witness:
  "planPrune smallRuntime exOpts exRepo exUsed = (exPlan, exStats, None) \<and>
   blobStats.Total (Blobs exStats) = 2 + 4 + 1 \<and>
   sizeStats.Total (Size exStats) = 15 + 10 + 44 + 50 \<and>
   sizeStats.Unused (Size exStats) = 10 + 44 \<and>
   blobStats.RemoveTotal (Blobs exStats) = 3 + 2 \<and>
   sizeStats.RemoveTotal (Size exStats) = 24 + 30 + 50 \<and>
   blobStats.Remain (Blobs exStats) = 7 - 5 \<and>
   sizeStats.Remain (Size exStats) = 119 - 104"
  using accounting_closure [OF exRun] exRun exPass1_Unused by (simp add: exStats_def)

text \<open>Claim C2 as stated asks for an unreferenced term in the blob grouping too. The example
  run has one unreferenced pack of 50 bytes: the blobs' remove_total is remove + repack_rm, and
  differs from that sum plus the unreferenced bytes or plus the number of unreferenced packs.\<close>

theorem accounting_closure_counterexample:
  "planPrune smallRuntime exOpts exRepo exUsed = (exPlan, exStats, None) \<and>
   blobStats.RemoveTotal (Blobs exStats) \<noteq>
     blobStats.Remove (Blobs exStats) + blobStats.RepackRm (Blobs exStats)
       + sizeStats.Unref (Size exStats) \<and>
   blobStats.RemoveTotal (Blobs exStats) \<noteq>
     blobStats.Remove (Blobs exStats) + blobStats.RepackRm (Blobs exStats)
       + packStats.Unref (Packs exStats)"
  using exRun by (simp add: exStats_def)

text \<open>With a handle added to the used set that no indexed blob has, the example run fails,
  and doPrune, which would change the backend, does not run.\<close>

theorem index_incomplete_witness:
  "(9, DataBlob) \<in> insert (9, DataBlob) exUsed \<and>
   (9, DataBlob) \<notin> BlobHandle ` set (Each exRepo) \<and>
   snd (snd (planPrune smallRuntime exOpts exRepo (insert (9, DataBlob) exUsed)))
     = Some errorIndexIncomplete \<and>
   fst (planPrune smallRuntime exOpts exRepo (insert (9, DataBlob) exUsed)) = zero_prunePlan \<and>
   runPruneWithRepo smallRuntime (\<lambda>sts. None) (\<lambda>opts plan b. (Suc b, None)) (\<lambda>e. e)
     exOpts exRepo (insert (9, DataBlob) exUsed) (0::nat) = (0, Some errorIndexIncomplete)"
proof -
  have missing: "(9, DataBlob) \<notin> BlobHandle ` set (Each exRepo)" by (simp add: exRepo_def)
  then have ex: "\<exists>h \<in> insert (9, DataBlob) exUsed. h \<notin> BlobHandle ` set (Each exRepo)" by blast
  show ?thesis
    using index_incomplete [of smallRuntime exOpts exRepo "insert (9, DataBlob) exUsed"
        "\<lambda>sts. None" "\<lambda>opts plan b. (Suc b, None)" "\<lambda>e. e" "0::nat"] ex missing
    by simp
qed

subsection \<open>The removal counters after the missing packs\<close>

lemma repack_Remove:
  "blobStats.Remove (Blobs (stats (repack pid p st))) = blobStats.Remove (Blobs (stats st))"
  "sizeStats.Remove (Size (stats (repack pid p st))) = sizeStats.Remove (Size (stats st))"
  by (simp_all add: repack_def)

lemma select_Remove:
  "blobStats.Remove (Blobs (stats (fold (selectCandidate opts mx) cs st))) =
     blobStats.Remove (Blobs (stats st))"
  "sizeStats.Remove (Size (stats (fold (selectCandidate opts mx) cs st))) =
     sizeStats.Remove (Size (stats st))"
  by (induction cs arbitrary: st) (simp_all add: selectCandidate_eq repack_Remove keep_frame)

lemma finalVars_Remove:
  "blobStats.Remove (Blobs (stats (finalVars rt opts st3))) =
     blobStats.Remove (Blobs (stats (afterMissing rt st3)))"
  "sizeStats.Remove (Size (stats (finalVars rt opts st3))) =
     sizeStats.Remove (Size (stats (afterMissing rt st3)))"
  by (simp_all add: finalVars_def totals_Blobs blobTotals_def sizeTotals_def Let_def
      creditDuplicates_def afterSelect_def select_Remove)

lemma afterMissing_Remove:
  assumes "permuting rt"
  shows "blobStats.Remove (Blobs (stats (afterMissing rt st))) =
      blobStats.Remove (Blobs (stats st))
        + sum_list (map (\<lambda>e. unusedBlobs (snd e)) (unneeded (indexPack st)))"
    and "sizeStats.Remove (Size (stats (afterMissing rt st))) =
      sizeStats.Remove (Size (stats st))
        + sum_list (map (\<lambda>e. unusedSize (snd e)) (unneeded (indexPack st)))"
  unfolding afterMissing_permuting [OF assms] by (rule missing_Remove)+

text \<open>Claim C4. Size-mismatch handling: the callback of the listing, on a file whose pack has
  an entry in the index, fails with errorSizeNotMatching exactly when the entry's
  usedSize + unusedSize differs from the size on disk and the pack has a used or a duplicate
  blob; with zero used and zero duplicate blobs the call succeeds whatever the size and puts the
  pack into removePacks. For a listing without repeated names and a used set that the index
  covers, planPrune fails with that error exactly when some listed file is in this case, and a
  run without error has every listed pack without used and duplicate blobs in
  plan.removePacks.\<close>

theorem size_mismatch:
  assumes "distinct (map fst (List repo))"
    and "used \<subseteq> BlobHandle ` set (Each repo)"
    and "planPrune rt opts repo used = (plan, sts, err)"
  shows "(map_of (indexPack st) pid = Some q \<longrightarrow>
       snd (listCallback opts (pid, packSize) st) =
         (if unusedSize q + usedSize q \<noteq> packSize \<and>
             \<not> (packInfo.usedBlobs q = 0 \<and> packInfo.duplicateBlobs q = 0)
          then Some errorSizeNotMatching else None) \<and>
       (packInfo.usedBlobs q = 0 \<and> packInfo.duplicateBlobs q = 0 \<longrightarrow>
          pid \<in> vars.removePacks (fst (listCallback opts (pid, packSize) st)))) \<and>
    (err = Some errorSizeNotMatching \<longleftrightarrow>
       (\<exists>f \<in> set (List repo). \<exists>p. map_of (indexPack (afterPass2 repo used)) (fst f) = Some p \<and>
          unusedSize p + usedSize p \<noteq> snd f \<and>
          \<not> (packInfo.usedBlobs p = 0 \<and> packInfo.duplicateBlobs p = 0))) \<and>
    (err = None \<longrightarrow>
       (\<forall>f \<in> set (List repo). \<forall>p. map_of (indexPack (afterPass2 repo used)) (fst f) = Some p \<and>
          packInfo.usedBlobs p = 0 \<and> packInfo.duplicateBlobs p = 0 \<longrightarrow>
          fst f \<in> prunePlan.removePacks plan))"
proof -
  have 1: "snd (listCallback opts (pid, packSize) st) =
      (if unusedSize q + usedSize q \<noteq> packSize \<and>
          \<not> (packInfo.usedBlobs q = 0 \<and> packInfo.duplicateBlobs q = 0)
       then Some errorSizeNotMatching else None)"
    if "map_of (indexPack st) pid = Some q"
    using that by (simp add: listCallback_error noLiveBlobs_def)
  have 2: "pid \<in> vars.removePacks (fst (listCallback opts (pid, packSize) st))"
    if entry: "map_of (indexPack st) pid = Some q"
      and dead: "packInfo.usedBlobs q = 0 \<and> packInfo.duplicateBlobs q = 0"
  proof -
    obtain st1 e1 where step: "listCallback opts (pid, packSize) st = (st1, e1)"
      by (cases "listCallback opts (pid, packSize) st")
    then have "e1 = None" using 1 [OF entry] dead by simp
    then show ?thesis
      using listCallback_removePacks [of opts "(pid, packSize)" st st1] step entry dead
      by (simp add: noLiveBlobs_def)
  qed
  have p1: "vars.usedBlobs (afterPass1 repo used) = {}"
    using assms(2) by (auto simp: afterPass1_usedBlobs)
  have err: "err = (case snd (afterList opts repo used) of
        Some e \<Rightarrow> Some e
      | None \<Rightarrow> if indexPack (afterMissing rt (fst (afterList opts repo used))) \<noteq> []
                then Some errorPacksMissing else None)"
    using planPrune_error [of rt opts repo used] assms(3) p1 by simp
  obtain st3 e3 where list: "afterList opts repo used = (st3, e3)"
    by (cases "afterList opts repo used")
  have e3: "e3 \<noteq> None \<longleftrightarrow> (\<exists>f \<in> set (List repo). sizeMismatch (indexPack (afterPass2 repo used)) f)"
    using list_error_iff [OF assms(1), of opts "afterPass2 repo used"] list
    by (simp add: afterList_def)
  have e3': "e3 = None \<or> e3 = Some errorSizeNotMatching"
    using list list_error [of opts "List repo" "afterPass2 repo used" st3]
    by (cases e3) (auto simp: afterList_def)
  have 3: "err = Some errorSizeNotMatching \<longleftrightarrow>
       (\<exists>f \<in> set (List repo). \<exists>p. map_of (indexPack (afterPass2 repo used)) (fst f) = Some p \<and>
          unusedSize p + usedSize p \<noteq> snd f \<and>
          \<not> (packInfo.usedBlobs p = 0 \<and> packInfo.duplicateBlobs p = 0))"
    using e3 e3' unfolding err list sizeMismatch_def noLiveBlobs_def by (auto split: if_splits)
  have 4: "fst f \<in> prunePlan.removePacks plan"
    if ok: "err = None" and f: "f \<in> set (List repo)"
      and p: "map_of (indexPack (afterPass2 repo used)) (fst f) = Some p"
        "packInfo.usedBlobs p = 0 \<and> packInfo.duplicateBlobs p = 0" for f p
  proof -
    from assms(3) ok obtain st3' where
      list': "afterList opts repo used = (st3', None)" and plan: "plan = planOf (finalVars rt opts st3')"
      by (auto elim: planPrune_success)
    have "prunePlan.removePacks plan = vars.removePacks st3'"
      by (simp add: plan planOf_simps finalVars_frame)
    then show ?thesis
      unfolding afterList_removePacks [OF list'] using f p by (auto simp: noLiveBlobs_def)
  qed
  from 1 2 3 4 show ?thesis by blast
qed

text \<open>Claim C5. Missing-pack handling: let the run get past the index check and the size
  check, with a runtime whose range visits every entry of the map once. Then planPrune fails
  with errorPacksMissing exactly when a pack that has an entry in the index and is not in the
  listing has a used or a duplicate blob, and otherwise it succeeds; on success plan.ignorePacks
  is the set of the packs with an entry that are not listed, all of them without used and
  duplicate blobs, and the removal counters are those the listing left plus the unused blobs
  and the unused bytes of these packs.\<close>

theorem missing_packs:
  assumes "permuting rt"
    and "planPrune rt opts repo used = (plan, sts, err)"
    and "err \<noteq> Some errorIndexIncomplete" and "err \<noteq> Some errorSizeNotMatching"
  shows "(err = Some errorPacksMissing \<longleftrightarrow>
       (\<exists>pid p. map_of (indexPack (afterPass2 repo used)) pid = Some p \<and>
          pid \<notin> fst ` set (List repo) \<and>
          \<not> (packInfo.usedBlobs p = 0 \<and> packInfo.duplicateBlobs p = 0))) \<and>
    (err = None \<or> err = Some errorPacksMissing) \<and>
    (err = None \<longrightarrow>
       prunePlan.ignorePacks plan =
         {pid. pid \<notin> fst ` set (List repo) \<and>
            (\<exists>p. map_of (indexPack (afterPass2 repo used)) pid = Some p)} \<and>
       (\<forall>pid \<in> prunePlan.ignorePacks plan.
          \<exists>p. map_of (indexPack (afterPass2 repo used)) pid = Some p \<and>
            packInfo.usedBlobs p = 0 \<and> packInfo.duplicateBlobs p = 0) \<and>
       blobStats.Remove (Blobs sts) =
         blobStats.Remove (Blobs (stats (fst (afterList opts repo used))))
           + sum_list (map (\<lambda>e. unusedBlobs (snd e))
               (filter (\<lambda>e. fst e \<notin> fst ` set (List repo)) (indexPack (afterPass2 repo used)))) \<and>
       sizeStats.Remove (Size sts) =
         sizeStats.Remove (Size (stats (fst (afterList opts repo used))))
           + sum_list (map (\<lambda>e. unusedSize (snd e))
               (filter (\<lambda>e. fst e \<notin> fst ` set (List repo)) (indexPack (afterPass2 repo used)))))"
proof -
  let ?M = "map_of (indexPack (afterPass2 repo used))"
  let ?L = "fst ` set (List repo)"
  have p1: "vars.usedBlobs (afterPass1 repo used) = {}"
    using planPrune_error [of rt opts repo used] assms(2,3) by (auto split: if_splits)
  obtain st3 e3 where list0: "afterList opts repo used = (st3, e3)"
    by (cases "afterList opts repo used")
  have "e3 = None"
  proof (rule ccontr)
    assume "e3 \<noteq> None"
    then obtain e where e: "e3 = Some e" by auto
    then have "e = errorSizeNotMatching"
      using list0 list_error [of opts "List repo" "afterPass2 repo used" st3 e]
      by (simp add: afterList_def)
    then show False
      using planPrune_error [of rt opts repo used] assms(2,4) p1 list0 e by simp
  qed
  then have list: "afterList opts repo used = (st3, None)" using list0 by simp
  have err: "err = (if indexPack (afterMissing rt st3) \<noteq> [] then Some errorPacksMissing else None)"
    using planPrune_error [of rt opts repo used] assms(2) p1 list by simp
  have d3: "distinct (map fst (indexPack st3))" by (rule afterList_distinct [OF list])
  have m3: "map_of (indexPack st3) pid = (if pid \<in> ?L then None else ?M pid)" for pid
    unfolding afterList_indexPack [OF list] by (rule map_of_filter_keys)
  have empty: "indexPack (afterMissing rt st3) = [] \<longleftrightarrow>
      (\<forall>pid p. ?M pid = Some p \<and> pid \<notin> ?L \<longrightarrow> noLiveBlobs p)"
    unfolding afterMissing_empty_iff [OF assms(1) d3] m3 by (auto split: if_splits)
  have 1: "err = Some errorPacksMissing \<longleftrightarrow>
       (\<exists>pid p. ?M pid = Some p \<and> pid \<notin> ?L \<and>
          \<not> (packInfo.usedBlobs p = 0 \<and> packInfo.duplicateBlobs p = 0))"
    unfolding err using empty by (auto simp: noLiveBlobs_def)
  have 2: "err = None \<or> err = Some errorPacksMissing" unfolding err by simp
  have 3: "prunePlan.ignorePacks plan = {pid. pid \<notin> ?L \<and> (\<exists>p. ?M pid = Some p)} \<and>
       (\<forall>pid \<in> prunePlan.ignorePacks plan.
          \<exists>p. ?M pid = Some p \<and> packInfo.usedBlobs p = 0 \<and> packInfo.duplicateBlobs p = 0) \<and>
       blobStats.Remove (Blobs sts) =
         blobStats.Remove (Blobs (stats (fst (afterList opts repo used))))
           + sum_list (map (\<lambda>e. unusedBlobs (snd e))
               (filter (\<lambda>e. fst e \<notin> ?L) (indexPack (afterPass2 repo used)))) \<and>
       sizeStats.Remove (Size sts) =
         sizeStats.Remove (Size (stats (fst (afterList opts repo used))))
           + sum_list (map (\<lambda>e. unusedSize (snd e))
               (filter (\<lambda>e. fst e \<notin> ?L) (indexPack (afterPass2 repo used))))"
    if ok: "err = None"
  proof -
    from ok have all: "\<forall>pid p. ?M pid = Some p \<and> pid \<notin> ?L \<longrightarrow> noLiveBlobs p"
      using err empty by (auto split: if_splits)
    from assms(2) ok obtain st3' where
      "afterList opts repo used = (st3', None)" and
      plan': "plan = planOf (finalVars rt opts st3')" and sts': "sts = stats (finalVars rt opts st3')"
      by (auto elim: planPrune_success)
    with list have plan: "plan = planOf (finalVars rt opts st3)"
      and sts: "sts = stats (finalVars rt opts st3)" by simp_all
    have ip: "prunePlan.ignorePacks plan = {pid. \<exists>p. map_of (indexPack st3) pid = Some p \<and> noLiveBlobs p}"
      by (simp add: plan planOf_simps finalVars_frame afterMissing_ignorePacks [OF assms(1) d3]
          afterList_frame [OF list])
    have a: "prunePlan.ignorePacks plan = {pid. pid \<notin> ?L \<and> (\<exists>p. ?M pid = Some p)}"
      unfolding ip m3 using all by (auto split: if_splits)
    have b: "\<forall>pid \<in> prunePlan.ignorePacks plan.
          \<exists>p. ?M pid = Some p \<and> packInfo.usedBlobs p = 0 \<and> packInfo.duplicateBlobs p = 0"
      unfolding a using all by (auto simp: noLiveBlobs_def)
    have "\<forall>e \<in> set (indexPack st3). noLiveBlobs (snd e)"
    proof
      fix e assume e: "e \<in> set (indexPack st3)"
      then have "map_of (indexPack st3) (fst e) = Some (snd e)" using d3 by simp
      then show "noLiveBlobs (snd e)" using all unfolding m3 by (auto split: if_splits)
    qed
    then have un: "unneeded (indexPack st3) = indexPack st3"
      by (simp add: unneeded_def)
    have c: "blobStats.Remove (Blobs sts) =
         blobStats.Remove (Blobs (stats (fst (afterList opts repo used))))
           + sum_list (map (\<lambda>e. unusedBlobs (snd e))
               (filter (\<lambda>e. fst e \<notin> ?L) (indexPack (afterPass2 repo used))))"
      by (simp add: sts finalVars_Remove afterMissing_Remove [OF assms(1)] list
          un [unfolded afterList_indexPack [OF list]] afterList_indexPack [OF list])
    have d: "sizeStats.Remove (Size sts) =
         sizeStats.Remove (Size (stats (fst (afterList opts repo used))))
           + sum_list (map (\<lambda>e. unusedSize (snd e))
               (filter (\<lambda>e. fst e \<notin> ?L) (indexPack (afterPass2 repo used))))"
      by (simp add: sts finalVars_Remove afterMissing_Remove [OF assms(1)] list
          un [unfolded afterList_indexPack [OF list]] afterList_indexPack [OF list])
    from a b c d show ?thesis by blast
  qed
  from 1 2 3 show ?thesis by blast
qed

subsection \<open>The insertion sort\<close>

lemma mset_insertLeft: "mset (insertLeft lt x ys) = add_mset x (mset ys)"
  by (induction ys) simp_all

lemma mset_fold_insertLeft: "mset (fold (insertLeft lt) xs acc) = mset xs + mset acc"
  by (induction xs arbitrary: acc) (simp_all add: mset_insertLeft)

lemma mset_insertionSort: "mset (insertionSort lt xs) = mset xs"
  by (simp add: insertionSort_def mset_fold_insertLeft)

lemma smallRuntime_permuting: "permuting smallRuntime"
  by (simp add: permuting_def smallRuntime_def)

lemma smallRuntime_rearranging: "rearranging smallRuntime"
  by (simp add: rearranging_def smallRuntime_def mset_insertionSort)

subsection \<open>Examples of the checks\<close>

lemma exIndex:
  "indexPack (afterPass2 exRepo exUsed) =
     [(100, \<lparr>packInfo.usedBlobs = 0, unusedBlobs = 1, packInfo.duplicateBlobs = 1,
              usedSize = 14, unusedSize = 20, tpe = DataBlob\<rparr>),
      (101, \<lparr>packInfo.usedBlobs = 0, unusedBlobs = 0, packInfo.duplicateBlobs = 1,
              usedSize = 14, unusedSize = 0, tpe = DataBlob\<rparr>),
      (102, \<lparr>packInfo.usedBlobs = 1, unusedBlobs = 0, packInfo.duplicateBlobs = 0,
              usedSize = 9, unusedSize = 0, tpe = TreeBlob\<rparr>),
      (103, \<lparr>packInfo.usedBlobs = 0, unusedBlobs = 1, packInfo.duplicateBlobs = 0,
              usedSize = 4, unusedSize = 7, tpe = DataBlob\<rparr>),
      (104, \<lparr>packInfo.usedBlobs = 0, unusedBlobs = 1, packInfo.duplicateBlobs = 0,
              usedSize = 4, unusedSize = 8, tpe = DataBlob\<rparr>),
      (105, \<lparr>packInfo.usedBlobs = 0, unusedBlobs = 1, packInfo.duplicateBlobs = 0,
              usedSize = 4, unusedSize = 9, tpe = DataBlob\<rparr>)]"
  by (simp add: run_defs exRepo_def exUsed_def)

lemma badRepo_index: "afterPass2 badRepo exUsed = afterPass2 exRepo exUsed"
  by (simp add: afterPass2_def afterPass1_def badRepo_def)

lemma goneRepo_index: "afterPass2 goneRepo exUsed = afterPass2 exRepo exUsed"
  by (simp add: afterPass2_def afterPass1_def goneRepo_def)

lemma exUsed_indexed: "exUsed \<subseteq> BlobHandle ` set (Each exRepo)"
  by (simp add: exUsed_def exRepo_def)

lemma badRun_error:
  "snd (snd (planPrune smallRuntime exOpts badRepo exUsed)) = Some errorSizeNotMatching"
  by (simp add: run_defs exOpts_def exRepo_def exUsed_def badRepo_def)

lemma goneRun_error:
  "snd (snd (planPrune smallRuntime exOpts goneRepo exUsed)) = Some errorPacksMissing"
  by (simp add: run_defs exOpts_def exRepo_def exUsed_def goneRepo_def)

text \<open>In the example, pack 103 has 11 bytes by the index and 12 on disk, and no used blob:
  the callback accepts it and the run removes it. Pack 101 has a duplicate blob: with 15
  bytes on disk instead of 14 the run fails.\<close>

theorem size_mismatch_witness:
  "distinct (map fst (List exRepo)) \<and> exUsed \<subseteq> BlobHandle ` set (Each exRepo) \<and>
   planPrune smallRuntime exOpts exRepo exUsed = (exPlan, exStats, None) \<and>
   map_of (indexPack (afterPass2 exRepo exUsed)) 103 =
     Some \<lparr>packInfo.usedBlobs = 0, unusedBlobs = 1, packInfo.duplicateBlobs = 0,
            usedSize = 4, unusedSize = 7, tpe = DataBlob\<rparr> \<and>
   snd (listCallback exOpts (103, 12) (afterPass2 exRepo exUsed)) = None \<and>
   103 \<in> vars.removePacks (fst (listCallback exOpts (103, 12) (afterPass2 exRepo exUsed))) \<and>
   103 \<in> prunePlan.removePacks exPlan \<and>
   (101, 15) \<in> set (List badRepo) \<and>
   snd (snd (planPrune smallRuntime exOpts badRepo exUsed)) = Some errorSizeNotMatching"
proof -
  have d: "distinct (map fst (List exRepo))" by (simp add: exRepo_def)
  have e: "map_of (indexPack (afterPass2 exRepo exUsed)) 103 =
     Some \<lparr>packInfo.usedBlobs = 0, unusedBlobs = 1, packInfo.duplicateBlobs = 0,
            usedSize = 4, unusedSize = 7, tpe = DataBlob\<rparr>"
    by (simp add: exIndex)
  have l: "(103, 12) \<in> set (List exRepo)" by (simp add: exRepo_def)
  note inst = size_mismatch [OF d exUsed_indexed exRun,
      of "afterPass2 exRepo exUsed" 103 _ 12]
  have 1: "snd (listCallback exOpts (103, 12) (afterPass2 exRepo exUsed)) = None"
    using inst e by simp
  have 2: "103 \<in> vars.removePacks (fst (listCallback exOpts (103, 12) (afterPass2 exRepo exUsed)))"
    using inst e by simp
  have 3: "103 \<in> prunePlan.removePacks exPlan"
    using inst e l by fastforce
  have 4: "(101, 15) \<in> set (List badRepo)" by (simp add: badRepo_def)
  show ?thesis using d exUsed_indexed exRun e 1 2 3 4 badRun_error by simp
qed

text \<open>In the example, packs 104 and 105 are in the index, not on disk and unused: they are
  ignored. Without
  pack 101 on disk, which has a duplicate blob, the run fails.\<close>

theorem missing_packs_witness:
  "permuting smallRuntime \<and>
   planPrune smallRuntime exOpts exRepo exUsed = (exPlan, exStats, None) \<and>
   prunePlan.ignorePacks exPlan =
     {pid. pid \<notin> fst ` set (List exRepo) \<and>
        (\<exists>p. map_of (indexPack (afterPass2 exRepo exUsed)) pid = Some p)} \<and>
   104 \<in> prunePlan.ignorePacks exPlan \<and>
   snd (snd (planPrune smallRuntime exOpts goneRepo exUsed)) = Some errorPacksMissing \<and>
   (\<exists>pid p. map_of (indexPack (afterPass2 goneRepo exUsed)) pid = Some p \<and>
      pid \<notin> fst ` set (List goneRepo) \<and>
      \<not> (packInfo.usedBlobs p = 0 \<and> packInfo.duplicateBlobs p = 0))"
proof -
  have 1: "prunePlan.ignorePacks exPlan =
     {pid. pid \<notin> fst ` set (List exRepo) \<and>
        (\<exists>p. map_of (indexPack (afterPass2 exRepo exUsed)) pid = Some p)}"
    using missing_packs [OF smallRuntime_permuting exRun] by simp
  have 2: "104 \<in> prunePlan.ignorePacks exPlan" by (simp add: exPlan_def)
  obtain plan sts err where run: "planPrune smallRuntime exOpts goneRepo exUsed = (plan, sts, err)"
    by (cases "planPrune smallRuntime exOpts goneRepo exUsed")
  then have err: "err = Some errorPacksMissing" using goneRun_error by simp
  have 3: "\<exists>pid p. map_of (indexPack (afterPass2 goneRepo exUsed)) pid = Some p \<and>
      pid \<notin> fst ` set (List goneRepo) \<and>
      \<not> (packInfo.usedBlobs p = 0 \<and> packInfo.duplicateBlobs p = 0)"
    using missing_packs [OF smallRuntime_permuting run] err by simp
  show ?thesis using smallRuntime_permuting exRun 1 2 3 goneRun_error by simp
qed

subsection \<open>The bytes to repack\<close>

lemma classifyBlob_Repack:
  "sizeStats.Repack (Size (stats (classifyBlob b st))) = sizeStats.Repack (Size (stats st))"
  by (simp add: classifyBlob_def Let_def)

lemma afterPass1_Repack: "sizeStats.Repack (Size (stats (afterPass1 repo used))) = 0"
proof -
  have "sizeStats.Repack (Size (stats (fold classifyBlob bs st))) = sizeStats.Repack (Size (stats st))"
    for bs st
    by (induction bs arbitrary: st) (simp_all add: classifyBlob_Repack)
  then show ?thesis
    by (simp add: afterPass1_def init_vars_def zero_pruneStats_def zero_sizeStats_def)
qed

lemma finalVars_cap:
  assumes "afterList opts repo used = (st3, None)" and "MaxRepackBytes opts > 0"
  shows "sizeStats.Repack (Size (stats (finalVars rt opts st3))) \<le> MaxRepackBytes opts"
proof -
  have "sizeStats.Repack (Size (stats (afterMissing rt st3))) = 0"
    by (simp add: afterMissing_def missing_frame afterList_frame [OF assms(1)] afterPass1_Repack)
  then have "sizeStats.Repack (Size (stats (afterSelect rt opts (afterMissing rt st3))))
      \<le> MaxRepackBytes opts"
    using assms(2) by (intro afterSelect_cap) simp_all
  then show ?thesis
    by (simp add: finalVars_def totals_Blobs sizeTotals_closure creditDuplicates_frame)
qed

text \<open>Claim C7. Selection loop: an iteration keeps the candidate when max\_repack\_size is set
  and the bytes to repack so far plus the candidate's unused and used bytes exceed it;
  otherwise it repacks a candidate with a duplicate blob or a type other than Data; otherwise
  it keeps the candidate exactly when unused minus removed minus repack-removed bytes is
  below maxUnusedSizeAfter, and repacks it if not. Keeping counts the pack and leaves
  repackPacks; repacking inserts the pack and adds its bytes. Over a list of candidates with
  distinct names, a candidate is in repackPacks at the end exactly when its own iteration
  repacked it. With the cap set, the bytes to repack never exceed it, in the loop and in the
  statistics of a run without error.\<close>

theorem selection_loop:
  "(MaxRepackBytes opts > 0 \<and>
      sizeStats.Repack (Size (stats st)) + unusedSize (packInfo p) + usedSize (packInfo p)
        > MaxRepackBytes opts \<longrightarrow>
      selectCandidate opts mx p st = keep (packInfo p) st) \<and>
   (\<not> (MaxRepackBytes opts > 0 \<and>
       sizeStats.Repack (Size (stats st)) + unusedSize (packInfo p) + usedSize (packInfo p)
         > MaxRepackBytes opts) \<and>
    (packInfo.duplicateBlobs (packInfo p) > 0 \<or> tpe (packInfo p) \<noteq> DataBlob) \<longrightarrow>
      selectCandidate opts mx p st = repack (ID p) (packInfo p) st) \<and>
   (\<not> (MaxRepackBytes opts > 0 \<and>
       sizeStats.Repack (Size (stats st)) + unusedSize (packInfo p) + usedSize (packInfo p)
         > MaxRepackBytes opts) \<and>
    packInfo.duplicateBlobs (packInfo p) = 0 \<and> tpe (packInfo p) = DataBlob \<longrightarrow>
      selectCandidate opts mx p st =
        (if sizeStats.Unused (Size (stats st)) - sizeStats.Remove (Size (stats st))
              - sizeStats.RepackRm (Size (stats st)) < mx
         then keep (packInfo p) st else repack (ID p) (packInfo p) st)) \<and>
   vars.repackPacks (keep (packInfo p) st) = vars.repackPacks st \<and>
   packStats.Keep (Packs (stats (keep (packInfo p) st))) = packStats.Keep (Packs (stats st)) + 1 \<and>
   vars.repackPacks (repack (ID p) (packInfo p) st) = insert (ID p) (vars.repackPacks st) \<and>
   sizeStats.Repack (Size (stats (repack (ID p) (packInfo p) st))) =
     sizeStats.Repack (Size (stats st)) + unusedSize (packInfo p) + usedSize (packInfo p) \<and>
   (distinct (map ID (pre @ p # post)) \<and> ID p \<notin> vars.repackPacks st \<longrightarrow>
      (ID p \<in> vars.repackPacks (fold (selectCandidate opts mx) (pre @ p # post) st) \<longleftrightarrow>
         selectCandidate opts mx p (fold (selectCandidate opts mx) pre st) =
           repack (ID p) (packInfo p) (fold (selectCandidate opts mx) pre st))) \<and>
   (MaxRepackBytes opts > 0 \<and> sizeStats.Repack (Size (stats st)) \<le> MaxRepackBytes opts \<longrightarrow>
      sizeStats.Repack (Size (stats (fold (selectCandidate opts mx) cs st))) \<le> MaxRepackBytes opts) \<and>
   (planPrune rt opts repo used = (plan, sts, None) \<and> MaxRepackBytes opts > 0 \<longrightarrow>
      sizeStats.Repack (Size sts) \<le> MaxRepackBytes opts)"
proof -
  have 1: "MaxRepackBytes opts > 0 \<and>
      sizeStats.Repack (Size (stats st)) + unusedSize (packInfo p) + usedSize (packInfo p)
        > MaxRepackBytes opts \<longrightarrow>
      selectCandidate opts mx p st = keep (packInfo p) st"
    by (simp add: selectCandidate_def reachedRepackSize_def)
  have 2: "\<not> (MaxRepackBytes opts > 0 \<and>
       sizeStats.Repack (Size (stats st)) + unusedSize (packInfo p) + usedSize (packInfo p)
         > MaxRepackBytes opts) \<and>
    (packInfo.duplicateBlobs (packInfo p) > 0 \<or> tpe (packInfo p) \<noteq> DataBlob) \<longrightarrow>
      selectCandidate opts mx p st = repack (ID p) (packInfo p) st"
    by (auto simp: selectCandidate_def reachedRepackSize_def)
  have 3: "\<not> (MaxRepackBytes opts > 0 \<and>
       sizeStats.Repack (Size (stats st)) + unusedSize (packInfo p) + usedSize (packInfo p)
         > MaxRepackBytes opts) \<and>
    packInfo.duplicateBlobs (packInfo p) = 0 \<and> tpe (packInfo p) = DataBlob \<longrightarrow>
      selectCandidate opts mx p st =
        (if sizeStats.Unused (Size (stats st)) - sizeStats.Remove (Size (stats st))
              - sizeStats.RepackRm (Size (stats st)) < mx
         then keep (packInfo p) st else repack (ID p) (packInfo p) st)"
    by (auto simp: selectCandidate_def reachedRepackSize_def reachedUnusedSizeAfter_def)
  have 8: "ID p \<in> vars.repackPacks (fold (selectCandidate opts mx) (pre @ p # post) st) \<longleftrightarrow>
         selectCandidate opts mx p (fold (selectCandidate opts mx) pre st) =
           repack (ID p) (packInfo p) (fold (selectCandidate opts mx) pre st)"
    if d: "distinct (map ID (pre @ p # post))" and n: "ID p \<notin> vars.repackPacks st"
  proof -
    let ?sk = "fold (selectCandidate opts mx) pre st"
    have notpre: "ID p \<notin> vars.repackPacks ?sk"
      using select_repackPacks_subset [of opts mx pre st] d n by auto
    have "selectCandidate opts mx p ?sk = repack (ID p) (packInfo p) ?sk \<longleftrightarrow> repacks opts mx p ?sk"
    proof
      assume "selectCandidate opts mx p ?sk = repack (ID p) (packInfo p) ?sk"
      then have "ID p \<in> vars.repackPacks (selectCandidate opts mx p ?sk)"
        by (simp add: repack_repackPacks)
      then show "repacks opts mx p ?sk"
        using notpre by (simp add: selectCandidate_repackPacks split: if_splits)
    next
      assume "repacks opts mx p ?sk"
      then show "selectCandidate opts mx p ?sk = repack (ID p) (packInfo p) ?sk"
        by (simp add: selectCandidate_eq)
    qed
    then show ?thesis using select_member [OF d n, of opts mx] by simp
  qed
  have 10: "sizeStats.Repack (Size sts) \<le> MaxRepackBytes opts"
    if run: "planPrune rt opts repo used = (plan, sts, None)" and cap: "MaxRepackBytes opts > 0"
  proof -
    from run obtain st3 where "afterList opts repo used = (st3, None)"
      "sts = stats (finalVars rt opts st3)"
      by (rule planPrune_success)
    then show ?thesis using finalVars_cap [OF _ cap] by simp
  qed
  show ?thesis
    using 1 2 3 8 10 select_cap [of opts st mx cs]
    by (simp only: keep_frame keep_Keep repack_repackPacks repack_Repack) blast
qed

text \<open>The example with a cap of 40 bytes: pack 100, of 34 bytes, is repacked; pack 101, of 14
  bytes, would exceed the cap and is kept.\<close>

lemma capRun: "planPrune smallRuntime capOpts exRepo exUsed = (capPlan, capStats, None)"
  by (simp add: run_defs capOpts_def exOpts_def exRepo_def exUsed_def capPlan_def exPlan_def
      capStats_def insert_commute)

theorem selection_loop_witness:
  "planPrune smallRuntime capOpts exRepo exUsed = (capPlan, capStats, None) \<and>
   MaxRepackBytes capOpts > 0 \<and>
   sizeStats.Repack (Size capStats) \<le> MaxRepackBytes capOpts \<and>
   distinct (map ID ([cand100] @ cand101 # [])) \<and>
   ID cand101 \<notin> vars.repackPacks (init_vars {}) \<and>
   ID cand101 \<notin> vars.repackPacks
     (fold (selectCandidate capOpts 0) ([cand100] @ cand101 # []) (init_vars {})) \<and>
   selectCandidate capOpts 0 cand101 (fold (selectCandidate capOpts 0) [cand100] (init_vars {}))
     = keep (packInfo cand101) (fold (selectCandidate capOpts 0) [cand100] (init_vars {}))"
proof -
  let ?s1 = "fold (selectCandidate capOpts 0) [cand100] (init_vars {})"
  have cap: "MaxRepackBytes capOpts > 0" by (simp add: capOpts_def)
  have d: "distinct (map ID ([cand100] @ cand101 # []))" by (simp add: cand100_def cand101_def)
  have n: "ID cand101 \<notin> vars.repackPacks (init_vars {})" by (simp add: init_vars_def)
  have r1: "sizeStats.Repack (Size (stats ?s1)) = 34"
    by (simp add: run_defs capOpts_def exOpts_def cand100_def)
  have over: "MaxRepackBytes capOpts > 0 \<and>
      sizeStats.Repack (Size (stats ?s1)) + unusedSize (packInfo cand101) + usedSize (packInfo cand101)
        > MaxRepackBytes capOpts"
    unfolding r1 by (simp add: capOpts_def cand101_def)
  note inst = selection_loop [of capOpts ?s1 cand101 0 "[cand100]" "[]" "[]"
      smallRuntime exRepo exUsed capPlan capStats]
  have k: "selectCandidate capOpts 0 cand101 ?s1 = keep (packInfo cand101) ?s1"
    using inst over by blast
  have "sizeStats.Repack (Size capStats) \<le> MaxRepackBytes capOpts"
    using inst capRun cap by blast
  moreover have "ID cand101 \<notin> vars.repackPacks
     (fold (selectCandidate capOpts 0) ([cand100] @ cand101 # []) (init_vars {}))"
    by (simp add: k keep_frame run_defs capOpts_def exOpts_def cand100_def cand101_def)
  ultimately show ?thesis using capRun cap d n k by simp
qed

text \<open>Claim C10. In a plan returned without error, for a listing without repeated names and
  a runtime whose range visits every entry once and whose sort rearranges the slice, the sets
  removePacksFirst, repackPacks, removePacks and ignorePacks are pairwise disjoint: the packs
  of removePacksFirst are listed and have no entry in the index, those of removePacks and of
  repackPacks are listed and have one, without and with a used or duplicate blob, and those of
  ignorePacks have an entry and are not listed.\<close>

theorem pack_sets_disjoint:
  assumes "planPrune rt opts repo used = (plan, sts, None)"
    and "distinct (map fst (List repo))"
    and "permuting rt" and "rearranging rt"
  shows "prunePlan.removePacksFirst plan \<inter> prunePlan.repackPacks plan = {} \<and>
    prunePlan.removePacksFirst plan \<inter> prunePlan.removePacks plan = {} \<and>
    prunePlan.removePacksFirst plan \<inter> prunePlan.ignorePacks plan = {} \<and>
    prunePlan.repackPacks plan \<inter> prunePlan.removePacks plan = {} \<and>
    prunePlan.repackPacks plan \<inter> prunePlan.ignorePacks plan = {} \<and>
    prunePlan.removePacks plan \<inter> prunePlan.ignorePacks plan = {} \<and>
    (\<forall>pid \<in> prunePlan.removePacksFirst plan. pid \<in> fst ` set (List repo) \<and>
       map_of (indexPack (afterPass2 repo used)) pid = None) \<and>
    (\<forall>pid \<in> prunePlan.removePacks plan. pid \<in> fst ` set (List repo) \<and>
       (\<exists>p. map_of (indexPack (afterPass2 repo used)) pid = Some p \<and> noLiveBlobs p)) \<and>
    (\<forall>pid \<in> prunePlan.repackPacks plan. pid \<in> fst ` set (List repo) \<and>
       (\<exists>p. map_of (indexPack (afterPass2 repo used)) pid = Some p \<and> \<not> noLiveBlobs p)) \<and>
    (\<forall>pid \<in> prunePlan.ignorePacks plan. pid \<notin> fst ` set (List repo) \<and>
       (\<exists>p. map_of (indexPack (afterPass2 repo used)) pid = Some p))"
proof -
  let ?M = "map_of (indexPack (afterPass2 repo used))"
  let ?L = "fst ` set (List repo)"
  from assms(1) obtain st3 where
    list: "afterList opts repo used = (st3, None)" and
    plan: "plan = planOf (finalVars rt opts st3)"
    by (rule planPrune_success)
  have d3: "distinct (map fst (indexPack st3))" by (rule afterList_distinct [OF list])
  have m3: "map_of (indexPack st3) pid = (if pid \<in> ?L then None else ?M pid)" for pid
    unfolding afterList_indexPack [OF list] by (rule map_of_filter_keys)
  have first: "prunePlan.removePacksFirst plan = {pid \<in> ?L. ?M pid = None}"
    by (simp add: plan planOf_simps finalVars_frame afterList_removePacksFirst [OF list assms(2)])
  have remove: "prunePlan.removePacks plan = {pid \<in> ?L. \<exists>p. ?M pid = Some p \<and> noLiveBlobs p}"
    by (simp add: plan planOf_simps finalVars_frame afterList_removePacks [OF list])
  have ignore: "prunePlan.ignorePacks plan \<subseteq> {pid. pid \<notin> ?L \<and> (\<exists>p. ?M pid = Some p)}"
    by (auto simp: plan planOf_simps finalVars_frame afterMissing_ignorePacks [OF assms(3) d3]
        afterList_frame [OF list] m3 split: if_splits)
  have repack: "prunePlan.repackPacks plan \<subseteq> {pid \<in> ?L. \<exists>p. ?M pid = Some p \<and> \<not> noLiveBlobs p}"
  proof
    fix pid assume "pid \<in> prunePlan.repackPacks plan"
    then have "pid \<in> vars.repackPacks (afterSelect rt opts (afterMissing rt st3))"
      by (simp add: plan planOf_simps finalVars_frame)
    then have "pid \<in> vars.repackPacks (afterMissing rt st3) \<union>
        ID ` set (sort_Slice rt candidateLess (repackCandidates (afterMissing rt st3)))"
      using afterSelect_repackPacks by blast
    moreover have "set (sort_Slice rt candidateLess (repackCandidates (afterMissing rt st3)))
        = set (repackCandidates st3)"
      using assms(4) unfolding rearranging_def
      by (metis afterMissing_def missing_frame(7) set_mset_mset)
    ultimately obtain c where "c \<in> set (repackCandidates st3)" "pid = ID c"
      by (auto simp: afterMissing_def missing_frame afterList_frame [OF list])
    then show "pid \<in> {pid \<in> ?L. \<exists>p. ?M pid = Some p \<and> \<not> noLiveBlobs p}"
      using afterList_repackCandidates [OF list] by auto
  qed
  show ?thesis
    unfolding first remove using ignore repack by (intro conjI) force+
qed

text \<open>The four sets of the example run.\<close>

theorem pack_sets_disjoint_witness:
  "planPrune smallRuntime exOpts exRepo exUsed = (exPlan, exStats, None) \<and>
   distinct (map fst (List exRepo)) \<and> permuting smallRuntime \<and> rearranging smallRuntime \<and>
   prunePlan.removePacksFirst exPlan \<inter> prunePlan.repackPacks exPlan = {} \<and>
   prunePlan.repackPacks exPlan \<inter> prunePlan.removePacks exPlan = {} \<and>
   prunePlan.removePacks exPlan \<inter> prunePlan.ignorePacks exPlan = {} \<and>
   999 \<in> prunePlan.removePacksFirst exPlan \<and> 100 \<in> prunePlan.repackPacks exPlan \<and>
   103 \<in> prunePlan.removePacks exPlan \<and> 104 \<in> prunePlan.ignorePacks exPlan \<and>
   map_of (indexPack (afterPass2 exRepo exUsed)) 999 = None"
proof -
  have d: "distinct (map fst (List exRepo))" by (simp add: exRepo_def)
  have m: "999 \<in> prunePlan.removePacksFirst exPlan" "100 \<in> prunePlan.repackPacks exPlan"
    "103 \<in> prunePlan.removePacks exPlan" "104 \<in> prunePlan.ignorePacks exPlan"
    by (simp_all add: exPlan_def)
  note inst = pack_sets_disjoint [OF exRun d smallRuntime_permuting smallRuntime_rearranging]
  have "map_of (indexPack (afterPass2 exRepo exUsed)) 999 = None"
    using inst m(1) by blast
  then show ?thesis
    using inst exRun d smallRuntime_permuting smallRuntime_rearranging m by simp
qed

subsection \<open>The comparator\<close>

lemma ratio_cross:
  fixes a b c d :: nat
  assumes "0 < b" and "0 < d"
  shows "real c / real d < real a / real b \<longleftrightarrow> c * b < a * d"
proof -
  have "real c / real d < real a / real b \<longleftrightarrow> real c * real b < real a * real d"
    using assms by (simp add: field_simps)
  also have "\<dots> \<longleftrightarrow> real (c * b) < real (a * d)" by simp
  also have "\<dots> \<longleftrightarrow> c * b < a * d" by (rule of_nat_less_iff)
  finally show ?thesis .
qed

lemma word_cross:
  fixes a b c d :: "64 word"
  assumes "unat a * unat d < 2 ^ 64" and "unat c * unat b < 2 ^ 64"
  shows "c * b < a * d \<longleftrightarrow> unat c * unat b < unat a * unat d"
proof -
  have "unat (a * d) = unat a * unat d" "unat (c * b) = unat c * unat b"
    using assms by (simp_all add: unat_mult_lem [symmetric])
  then show ?thesis by (simp add: word_less_nat_alt)
qed

text \<open>Claim C6, as amended. Candidate ordering: the comparator puts pack i before pack j when
  i has duplicate blobs and j has none; when they are tied on that, i is not of type Data and j
  is; and when they are tied on both and unused\_i * used\_j > unused\_j * used\_i in 64-bit
  arithmetic. For packs with nonzero used bytes whose two products fit in 64 bits, as they do
  for sizes below 2^32, this last comparison is that of the ratios unused / used, the higher
  first.\<close>

theorem candidate_ordering:
  "(candidateLess ci cj \<longleftrightarrow>
      (packInfo.duplicateBlobs (packInfo ci) > 0 \<and> packInfo.duplicateBlobs (packInfo cj) = 0) \<or>
      ((packInfo.duplicateBlobs (packInfo ci) > 0 \<longleftrightarrow> packInfo.duplicateBlobs (packInfo cj) > 0) \<and>
       tpe (packInfo ci) \<noteq> DataBlob \<and> tpe (packInfo cj) = DataBlob) \<or>
      ((packInfo.duplicateBlobs (packInfo ci) > 0 \<longleftrightarrow> packInfo.duplicateBlobs (packInfo cj) > 0) \<and>
       (tpe (packInfo ci) = DataBlob \<longleftrightarrow> tpe (packInfo cj) = DataBlob) \<and>
       unusedSize (packInfo ci) * usedSize (packInfo cj)
         > unusedSize (packInfo cj) * usedSize (packInfo ci))) \<and>
   (usedSize (packInfo ci) \<noteq> 0 \<and> usedSize (packInfo cj) \<noteq> 0 \<and>
    unat (unusedSize (packInfo ci)) * unat (usedSize (packInfo cj)) < 2 ^ 64 \<and>
    unat (unusedSize (packInfo cj)) * unat (usedSize (packInfo ci)) < 2 ^ 64 \<longrightarrow>
      (unusedSize (packInfo ci) * usedSize (packInfo cj)
         > unusedSize (packInfo cj) * usedSize (packInfo ci) \<longleftrightarrow>
       real (unat (unusedSize (packInfo ci))) / real (unat (usedSize (packInfo ci)))
         > real (unat (unusedSize (packInfo cj))) / real (unat (usedSize (packInfo cj))))) \<and>
   (unusedSize (packInfo ci) < 2 ^ 32 \<and> usedSize (packInfo ci) < 2 ^ 32 \<and>
    unusedSize (packInfo cj) < 2 ^ 32 \<and> usedSize (packInfo cj) < 2 ^ 32 \<longrightarrow>
      unat (unusedSize (packInfo ci)) * unat (usedSize (packInfo cj)) < 2 ^ 64 \<and>
      unat (unusedSize (packInfo cj)) * unat (usedSize (packInfo ci)) < 2 ^ 64)"
proof -
  have 1: "candidateLess ci cj \<longleftrightarrow>
      (packInfo.duplicateBlobs (packInfo ci) > 0 \<and> packInfo.duplicateBlobs (packInfo cj) = 0) \<or>
      ((packInfo.duplicateBlobs (packInfo ci) > 0 \<longleftrightarrow> packInfo.duplicateBlobs (packInfo cj) > 0) \<and>
       tpe (packInfo ci) \<noteq> DataBlob \<and> tpe (packInfo cj) = DataBlob) \<or>
      ((packInfo.duplicateBlobs (packInfo ci) > 0 \<longleftrightarrow> packInfo.duplicateBlobs (packInfo cj) > 0) \<and>
       (tpe (packInfo ci) = DataBlob \<longleftrightarrow> tpe (packInfo cj) = DataBlob) \<and>
       unusedSize (packInfo ci) * usedSize (packInfo cj)
         > unusedSize (packInfo cj) * usedSize (packInfo ci))"
    by (auto simp: candidateLess_def Let_def word_greater_zero_iff)
  have 2: "unusedSize (packInfo ci) * usedSize (packInfo cj)
         > unusedSize (packInfo cj) * usedSize (packInfo ci) \<longleftrightarrow>
       real (unat (unusedSize (packInfo ci))) / real (unat (usedSize (packInfo ci)))
         > real (unat (unusedSize (packInfo cj))) / real (unat (usedSize (packInfo cj)))"
    if "usedSize (packInfo ci) \<noteq> 0" "usedSize (packInfo cj) \<noteq> 0"
      "unat (unusedSize (packInfo ci)) * unat (usedSize (packInfo cj)) < 2 ^ 64"
      "unat (unusedSize (packInfo cj)) * unat (usedSize (packInfo ci)) < 2 ^ 64"
  proof -
    have pos: "0 < unat (usedSize (packInfo ci))" "0 < unat (usedSize (packInfo cj))"
      using that(1,2) by (simp_all add: unat_gt_0)
    show ?thesis
      unfolding word_cross [OF that(3,4)] ratio_cross [OF pos] ..
  qed
  have 3: "unat x * unat y < 2 ^ 64" if "x < 2 ^ 32" "y < 2 ^ 32" for x y :: "64 word"
  proof -
    have "unat x < 2 ^ 32" "unat y < 2 ^ 32"
      using that by (simp_all add: word_less_nat_alt)
    then have "unat x * unat y < 2 ^ 32 * 2 ^ 32"
      by (intro mult_strict_mono) simp_all
    then show ?thesis by simp
  qed
  show ?thesis using 1 2 3 by blast
qed

text \<open>Two candidates of the example: pack 100 has 20 unused bytes for 14 used ones, pack
  101 none; both have a duplicate blob and data blobs only.\<close>

theorem candidate_ordering_witness:
  "usedSize (packInfo cand100) \<noteq> 0 \<and> usedSize (packInfo cand101) \<noteq> 0 \<and>
   unusedSize (packInfo cand100) < 2 ^ 32 \<and> usedSize (packInfo cand100) < 2 ^ 32 \<and>
   unusedSize (packInfo cand101) < 2 ^ 32 \<and> usedSize (packInfo cand101) < 2 ^ 32 \<and>
   real (unat (unusedSize (packInfo cand100))) / real (unat (usedSize (packInfo cand100)))
     > real (unat (unusedSize (packInfo cand101))) / real (unat (usedSize (packInfo cand101))) \<and>
   candidateLess cand100 cand101"
proof -
  have sizes: "usedSize (packInfo cand100) \<noteq> 0" "usedSize (packInfo cand101) \<noteq> 0"
    "unusedSize (packInfo cand100) < 2 ^ 32" "usedSize (packInfo cand100) < 2 ^ 32"
    "unusedSize (packInfo cand101) < 2 ^ 32" "usedSize (packInfo cand101) < 2 ^ 32"
    by (simp_all add: cand100_def cand101_def)
  have tie: "packInfo.duplicateBlobs (packInfo cand100) > 0"
    "packInfo.duplicateBlobs (packInfo cand101) > 0"
    "tpe (packInfo cand100) = DataBlob" "tpe (packInfo cand101) = DataBlob"
    by (simp_all add: cand100_def cand101_def)
  have ratio: "real (unat (unusedSize (packInfo cand100))) / real (unat (usedSize (packInfo cand100)))
     > real (unat (unusedSize (packInfo cand101))) / real (unat (usedSize (packInfo cand101)))"
    by (simp add: cand100_def cand101_def)
  have "candidateLess cand100 cand101"
    using candidate_ordering [of cand100 cand101] sizes tie ratio by blast
  then show ?thesis using sizes ratio by simp
qed

text \<open>Claim C6 as stated has no bound on the sizes. Of the two candidates of this example,
  data packs without duplicates, the first has 2^32 unused bytes for one used byte, the second
  one unused byte for 2^32 used ones: the first has the higher ratio and the greater product.
  But 2^32 * 2^32 is 0 in 64 bits: the comparator puts the second before the first, the sort
  exchanges them, and the run repacks the second and keeps the first.\<close>

theorem candidate_ordering_counterexample:
  "repackCandidates (fst (afterList hugeOpts hugeRepo hugeLive)) = [wastePack, fullPack] \<and>
   packInfo.duplicateBlobs (packInfo wastePack) = 0 \<and>
   packInfo.duplicateBlobs (packInfo fullPack) = 0 \<and>
   tpe (packInfo wastePack) = DataBlob \<and> tpe (packInfo fullPack) = DataBlob \<and>
   usedSize (packInfo wastePack) \<noteq> 0 \<and> usedSize (packInfo fullPack) \<noteq> 0 \<and>
   unat (unusedSize (packInfo wastePack)) * unat (usedSize (packInfo fullPack))
     > unat (unusedSize (packInfo fullPack)) * unat (usedSize (packInfo wastePack)) \<and>
   real (unat (unusedSize (packInfo wastePack))) / real (unat (usedSize (packInfo wastePack)))
     > real (unat (unusedSize (packInfo fullPack))) / real (unat (usedSize (packInfo fullPack))) \<and>
   \<not> candidateLess wastePack fullPack \<and> candidateLess fullPack wastePack \<and>
   sort_Slice smallRuntime candidateLess [wastePack, fullPack] = [fullPack, wastePack] \<and>
   snd (snd (planPrune smallRuntime hugeOpts hugeRepo hugeLive)) = None \<and>
   prunePlan.repackPacks (fst (planPrune smallRuntime hugeOpts hugeRepo hugeLive)) = {2}"
  by (simp add: run_defs hugeOpts_def hugeRepo_def hugeLive_def wastePack_def fullPack_def
      word_less_nat_alt)

subsection \<open>The order of the visits\<close>

text \<open>Claim C9, as amended. Determinism: on the same enumeration of the indexed blobs, the
  same used set, the same listing in the same order and the same options, planPrune returns
  the same plan, statistics and error whatever the order in which range visits the entries of
  indexPack, the sort being the same function. Nothing is said of listings that differ in
  their order.\<close>

theorem plan_deterministic:
  assumes "permuting rt1" and "permuting rt2" and "sort_Slice rt1 = sort_Slice rt2"
  shows "planPrune rt1 opts repo used = planPrune rt2 opts repo used"
proof -
  have m: "afterMissing rt1 st = afterMissing rt2 st" for st
    by (simp add: afterMissing_permuting [OF assms(1)] afterMissing_permuting [OF assms(2)])
  have s: "afterSelect rt1 opts st = afterSelect rt2 opts st" for st
    by (simp add: afterSelect_def assms(3))
  show ?thesis unfolding planPrune_def m s ..
qed

text \<open>The example run with the entries of indexPack visited in the reverse order.\<close>

theorem plan_deterministic_witness:
  "permuting smallRuntime \<and> permuting (smallRuntime\<lparr>range_indexPack := rev\<rparr>) \<and>
   sort_Slice smallRuntime = sort_Slice (smallRuntime\<lparr>range_indexPack := rev\<rparr>) \<and>
   planPrune (smallRuntime\<lparr>range_indexPack := rev\<rparr>) exOpts exRepo exUsed
     = (exPlan, exStats, None)"
proof -
  have p: "permuting (smallRuntime\<lparr>range_indexPack := rev\<rparr>)" by (simp add: permuting_def)
  have s: "sort_Slice smallRuntime = sort_Slice (smallRuntime\<lparr>range_indexPack := rev\<rparr>)" by simp
  show ?thesis
    using plan_deterministic [OF smallRuntime_permuting p s, of exOpts exRepo exUsed]
      smallRuntime_permuting p s exRun
    by simp
qed

text \<open>Claim C9 as stated has the plan independent of the order in which candidates of equal
  priority are met. The two packs of this example compare equal, and only one fits under the
  cap: the one that the listing names first is repacked, the other kept.\<close>

theorem plan_deterministic_counterexample:
  "\<not> candidateLess cand200 cand201 \<and> \<not> candidateLess cand201 cand200 \<and>
   repackCandidates (fst (afterList tieOpts tieRepo tieUsed)) = [cand200, cand201] \<and>
   mset (List (tieRepo\<lparr>List := rev (List tieRepo)\<rparr>)) = mset (List tieRepo) \<and>
   snd (snd (planPrune smallRuntime tieOpts tieRepo tieUsed)) = None \<and>
   snd (snd (planPrune smallRuntime tieOpts (tieRepo\<lparr>List := rev (List tieRepo)\<rparr>) tieUsed)) = None \<and>
   prunePlan.repackPacks (fst (planPrune smallRuntime tieOpts tieRepo tieUsed)) = {200} \<and>
   prunePlan.repackPacks
     (fst (planPrune smallRuntime tieOpts (tieRepo\<lparr>List := rev (List tieRepo)\<rparr>) tieUsed)) = {201}"
  by (simp add: run_defs tieOpts_def tieRepo_def tieUsed_def cand200_def cand201_def)

subsection \<open>The options\<close>

lemma HasSuffix_percent: "HasSuffix (s @ ''%'') ''%''"
  by (simp add: HasSuffix_def)

lemma TrimSuffix_percent: "TrimSuffix (s @ ''%'') ''%'' = s"
  by (simp add: TrimSuffix_def HasSuffix_def)

lemma percent_not_unlimited: "s @ ''%'' \<noteq> ''unlimited''"
proof
  assume "s @ ''%'' = ''unlimited''"
  then have "last (s @ ''%'') = last ''unlimited''" by simp
  then show False by simp
qed

lemma verifyMaxRepackSize_MaxUnused:
  "verifyMaxRepackSize lib opts = Inr opts1 \<Longrightarrow> MaxUnused opts1 = MaxUnused opts"
  by (auto simp: verifyMaxRepackSize_def split: if_splits option.splits)

text \<open>The three forms of \<^verbatim>\<open>MaxUnused\<close>, once \<^verbatim>\<open>MaxRepackSize\<close> is through. The word
  unlimited gives the greatest \<^verbatim>\<open>uint64\<close> for every input. A percentage whose number parses
  to p is refused when p < 0 and when p >= 100, and otherwise accepted with the function
  \<^verbatim>\<open>uint64(p / (100 - p) * float64(used))\<close>; for a finite p that is: accepted exactly when
  0 <= p < 100; both infinities are refused, and NaN passes both guards. Any other string that \<^verbatim>\<open>parseSizeStr\<close>
  accepts gives the constant function of its size.\<close>

lemma verifyPruneOptions_unlimited:
  assumes "verifyMaxRepackSize lib opts = Inr opts1"
    and "TrimSpace lib (MaxUnused opts) = ''unlimited''"
  shows "verifyPruneOptions lib opts = Inr (opts1\<lparr>maxUnusedBytes := (\<lambda>used. MaxUint64)\<rparr>)"
    and "used \<le> MaxUint64"
proof -
  show "verifyPruneOptions lib opts = Inr (opts1\<lparr>maxUnusedBytes := (\<lambda>used. MaxUint64)\<rparr>)"
    using assms verifyMaxRepackSize_MaxUnused [OF assms(1)]
    by (simp add: verifyPruneOptions_def verifyMaxUnused_def)
  have m: "MaxUint64 = - 1" by (simp add: MaxUint64_def)
  show "used \<le> MaxUint64" unfolding m by (rule word_n1_ge)
qed

lemma verifyPruneOptions_percent:
  assumes "verifyMaxRepackSize lib opts = Inr opts1"
    and "TrimSpace lib (MaxUnused opts) = s @ ''%''"
    and "ParseFloat lib s = Some p"
  shows "verifyPruneOptions lib opts =
     (if float64_less p (Finite 0) then Inl errorMustBePositive
      else if float64_ge p (Finite 100) then Inl errorMustBeBelow100
      else Inr (opts1\<lparr>maxUnusedBytes :=
        (\<lambda>used. uint64_of_float64 lib
           (float64_mul lib (float64_div lib p (float64_sub lib (Finite 100) p))
              (float64_of_uint64 lib used)))\<rparr>))"
  using assms verifyMaxRepackSize_MaxUnused [OF assms(1)]
  by (simp add: verifyPruneOptions_def verifyMaxUnused_def HasSuffix_percent TrimSuffix_percent
      percent_not_unlimited)

lemma verifyPruneOptions_percent_finite:
  assumes "verifyMaxRepackSize lib opts = Inr opts1"
    and "TrimSpace lib (MaxUnused opts) = s @ ''%''"
    and "ParseFloat lib s = Some (Finite r)"
  shows "\<not> isl (verifyPruneOptions lib opts) \<longleftrightarrow> 0 \<le> r \<and> r < 100"
    and "r < 0 \<Longrightarrow> verifyPruneOptions lib opts = Inl errorMustBePositive"
    and "100 \<le> r \<Longrightarrow> verifyPruneOptions lib opts = Inl errorMustBeBelow100"
  unfolding verifyPruneOptions_percent [OF assms] by auto

lemma verifyPruneOptions_percent_infinite:
  assumes "verifyMaxRepackSize lib opts = Inr opts1"
    and "TrimSpace lib (MaxUnused opts) = s @ ''%''"
  shows "ParseFloat lib s = Some NegInf \<Longrightarrow> verifyPruneOptions lib opts = Inl errorMustBePositive"
    and "ParseFloat lib s = Some PosInf \<Longrightarrow> verifyPruneOptions lib opts = Inl errorMustBeBelow100"
  using verifyPruneOptions_percent [OF assms] by simp_all

lemma verifyPruneOptions_percent_NaN:
  assumes "verifyMaxRepackSize lib opts = Inr opts1"
    and "TrimSpace lib (MaxUnused opts) = s @ ''%''"
    and "ParseFloat lib s = Some NaN"
  shows "\<not> isl (verifyPruneOptions lib opts)"
  unfolding verifyPruneOptions_percent [OF assms] by simp

lemma verifyPruneOptions_bytes:
  assumes "verifyMaxRepackSize lib opts = Inr opts1"
    and "TrimSpace lib (MaxUnused opts) = s" and "s \<noteq> []" and "s \<noteq> ''unlimited''"
    and "\<not> HasSuffix s ''%''" and "parseSizeStr lib s = Some sz"
  shows "verifyPruneOptions lib opts = Inr (opts1\<lparr>maxUnusedBytes := (\<lambda>used. sz)\<rparr>)"
  using assms verifyMaxRepackSize_MaxUnused [OF assms(1)]
  by (simp add: verifyPruneOptions_def verifyMaxUnused_def)

lemmas options_defs = verifyPruneOptions_def verifyMaxRepackSize_def verifyMaxUnused_def
  HasSuffix_def TrimSuffix_def exLibrary_def exParseFloat_def exParseSizeStr_def exOpts_def

text \<open>Claim C8, on the code. The claim has a percentage accepted exactly when 0 <= p < 100.
  \<^verbatim>\<open>strconv.ParseFloat\<close> parses NaN to the value NaN without error; NaN is neither below 0
  nor at least 100 by the comparisons of the language, so neither guard refuses it, and
  \<^verbatim>\<open>verifyPruneOptions\<close> accepts NaN%, although NaN is not a number from 0 to below 100. The
  other inputs of the example do as the claim says: 50% is accepted and gives 50 / (100 - 50)
  times the used bytes, -1% and 100% are refused, unlimited gives the greatest
  \<^verbatim>\<open>uint64\<close>, and 1024 gives 1024.\<close>

theorem verifyPruneOptions_accepts_NaN:
  "TrimSpace exLibrary (MaxUnused (exOpts\<lparr>MaxUnused := ''NaN%''\<rparr>)) = ''NaN%'' \<and>
   ParseFloat exLibrary ''NaN'' = Some NaN \<and>
   \<not> float64_less NaN (Finite 0) \<and> \<not> float64_ge NaN (Finite 100) \<and>
   \<not> float64_ge NaN (Finite 0) \<and> \<not> float64_less NaN (Finite 100) \<and>
   \<not> isl (verifyPruneOptions exLibrary (exOpts\<lparr>MaxUnused := ''NaN%''\<rparr>)) \<and>
   \<not> isl (verifyPruneOptions exLibrary (exOpts\<lparr>MaxUnused := ''50%''\<rparr>)) \<and>
   maxUnusedBytes (projr (verifyPruneOptions exLibrary (exOpts\<lparr>MaxUnused := ''50%''\<rparr>))) 10 = 10 \<and>
   verifyPruneOptions exLibrary (exOpts\<lparr>MaxUnused := ''-1%''\<rparr>) = Inl errorMustBePositive \<and>
   verifyPruneOptions exLibrary (exOpts\<lparr>MaxUnused := ''100%''\<rparr>) = Inl errorMustBeBelow100 \<and>
   maxUnusedBytes (projr (verifyPruneOptions exLibrary (exOpts\<lparr>MaxUnused := ''unlimited''\<rparr>))) 10
     = 18446744073709551615 \<and>
   maxUnusedBytes (projr (verifyPruneOptions exLibrary (exOpts\<lparr>MaxUnused := ''1024''\<rparr>))) 10
     = 1024"
  by (simp add: options_defs MaxUint64_def)

end
